theory Spec2Isabelle
  imports Complex_Main "HOL-Library.Log_Nat"
begin

section \<open>Falling 3D objects: configuration, model acquisition, instance pool, frame update\<close>

text \<open>
  A shallow embedding of the falling-objects animation (config.js, utils.js,
  modelLoader.js and main.js). Values that the code only ever produces with
  \<open>Math.round\<close> or \<open>Math.ceil\<close>, and array indices, are \<^typ>\<open>int\<close> and
  \<^typ>\<open>nat\<close>; every other JavaScript number is a \<^typ>\<open>real\<close>. The arithmetic of
  the code is double-precision: \<open>fl\<close> below rounds a real to the nearest double, and
  the definitions whose names end in \<open>64\<close>, \<open>calculateObjectCount\<close> and the
  bounding sphere of three.js round after every operation as the code does. The definitions of the frame update without
  that suffix compute with exact reals; they carry the statements that do not depend
  on the rounding. Console output is not modelled.
\<close>

subsection \<open>config.js\<close>

text \<open>
  The fields of \<open>OBJECT_CONFIG\<close> and \<open>ANIMATION_CONFIG\<close> that the modelled functions
  read, gathered in one record. The functions below take the configuration as a
  parameter; \<open>CONFIG\<close> holds the values of config.js.
\<close>

record config =
  TARGET_DENSITY :: real
  X_SPREAD :: real
  Y_SPREAD :: real
  Z_SPREAD :: real
  Y_OFFSET :: real
  MIN_SCALE :: real
  MAX_SCALE :: real
  FALL_SPEED :: real
  MAX_ROTATION_SPEED :: real
  ROTATION_MULTIPLIER :: real

definition CONFIG :: config where
  "CONFIG = \<lparr> TARGET_DENSITY = 4, X_SPREAD = 200, Y_SPREAD = 600, Z_SPREAD = 100,
     Y_OFFSET = 0, MIN_SCALE = 2 / 100, MAX_SCALE = 1 / 10, FALL_SPEED = 8 / 10,
     MAX_ROTATION_SPEED = 5 / 10, ROTATION_MULTIPLIER = 2 / 100 \<rparr>"

text \<open>\<open>OBJECT_COLORS\<close> of config.js, in order.\<close>

definition OBJECT_COLORS :: "nat list" where
  "OBJECT_COLORS =
    [0xf7aef8, 0x990e9c, 0xef61f1, 0xf8bff9, 0xfacffb,
     0xb388eb, 0x43167f, 0x8b4ae0, 0xc3a1ef, 0xd2b8f3,
     0x8093f1, 0x0f2284, 0x3c59e9, 0x98a7f4, 0xb2bdf6,
     0x72ddf7, 0x086f89, 0x2fccf3, 0x8fe3f8, 0xabeafa]"

subsection \<open>Double-precision arithmetic\<close>

text \<open>
  The double nearest to a real number, a tie going to the even significand
  (IEEE 754 binary64, round to nearest even): with \<open>2 ^ e \<le> \<bar>v\<bar> < 2 ^ (e + 1)\<close> the
  doubles around \<open>v\<close> are the multiples of \<open>2 ^ (e - 52)\<close>. Overflow and subnormal
  numbers are left out: \<open>fl\<close> is the rounding of the engine for
  \<open>2 ^ - 1022 \<le> \<bar>v\<bar> < 2 ^ 1024\<close>.
\<close>

definition pow2 :: "int \<Rightarrow> real" where
  "pow2 e = (if 0 \<le> e then 2 ^ nat e else 1 / 2 ^ nat (- e))"

definition roundEven :: "real \<Rightarrow> int" where
  "roundEven v =
     (let f = \<lfloor>v\<rfloor>; d = v - of_int f
      in if d < 1 / 2 then f
         else if 1 / 2 < d then f + 1
         else if even f then f else f + 1)"

definition exponent :: "real \<Rightarrow> int" where
  "exponent v =
     (if 1 \<le> \<bar>v\<bar> then bitlen \<lfloor>\<bar>v\<bar>\<rfloor> - 1 else - bitlen (\<lceil>1 / \<bar>v\<bar>\<rceil> - 1))"

definition fl :: "real \<Rightarrow> real" where
  "fl v =
     (if v = 0 then 0
      else let u = pow2 (exponent v - 52) in of_int (roundEven (v / u)) * u)"

subsection \<open>utils.js: calculateObjectCount\<close>

text \<open>
  \<open>Math.round\<close> rounds to the nearest integer, a tie towards plus infinity:
  \<open>Math.round x = \<lfloor>x + 1/2\<rfloor>\<close>.
\<close>

definition Math_round :: "real \<Rightarrow> int" where
  "Math_round v = \<lfloor>v + 1 / 2\<rfloor>"

definition Math_ceil :: "real \<Rightarrow> int" where
  "Math_ceil v = \<lceil>v\<rceil>"

definition calculateObjectCount :: "config \<Rightarrow> int" where
  "calculateObjectCount cfg =
    (let volume = fl (fl (X_SPREAD cfg * Y_SPREAD cfg) * Z_SPREAD cfg);
         densityPerCubicUnit = fl (TARGET_DENSITY cfg / 1000000);
         calculatedCount = Math_round (fl (volume * densityPerCubicUnit))
     in calculatedCount)"

subsection \<open>The three.js library and the JavaScript engine\<close>

text \<open>
  three.js (r128) is not part of the repository. A \<open>BufferGeometry\<close> is modelled by
  the attributes the code reads and writes: each attribute is absent (\<open>None\<close>) or
  present with its flat number array. Geometries are values, so \<open>clone\<close> returns its
  argument. What the library computes from the vertex data (normals, bounding sphere,
  the components of a colour) and when the engine refuses to provide storage for an
  array are parameters, gathered in the record \<open>three\<close>.
\<close>

type_synonym vec3 = "real \<times> real \<times> real"

record sphere =
  center :: vec3
  radius :: real

record bufferGeometry =
  index :: "nat list option"
  position :: "real list option"
  normal :: "real list option"
  uv :: "real list option"
  boundingSphere :: "sphere option"

record three =
  vertexNormals :: "nat list option \<Rightarrow> real list \<Rightarrow> real list"
  boundingSphereOf :: "real list \<Rightarrow> sphere"
  Color :: "nat option \<Rightarrow> vec3"
  storage_fails :: "nat \<Rightarrow> bool"

definition BufferGeometry :: bufferGeometry where
  "BufferGeometry =
     \<lparr> index = None, position = None, normal = None, uv = None, boundingSphere = None \<rparr>"

definition clone :: "bufferGeometry \<Rightarrow> bufferGeometry" where
  "clone g = g"

text \<open>
  \<open>computeVertexNormals\<close> creates or overwrites the normal attribute from the index
  and the positions, and does nothing on a geometry with no position attribute.
  \<open>computeBoundingSphere\<close> stores the sphere computed from the positions.
\<close>

definition computeVertexNormals :: "three \<Rightarrow> bufferGeometry \<Rightarrow> bufferGeometry" where
  "computeVertexNormals lib g =
     (case position g of
        None \<Rightarrow> g
      | Some p \<Rightarrow> g\<lparr>normal := Some (vertexNormals lib (index g) p)\<rparr>)"

definition computeBoundingSphere :: "three \<Rightarrow> bufferGeometry \<Rightarrow> bufferGeometry" where
  "computeBoundingSphere lib g =
     (case position g of
        None \<Rightarrow> g\<lparr>boundingSphere := Some \<lparr>center = (0, 0, 0), radius = - 1\<rparr>\<rparr>
      | Some p \<Rightarrow> g\<lparr>boundingSphere := Some (boundingSphereOf lib p)\<rparr>)"

text \<open>The number of vertices of a geometry: the position attribute's \<open>count\<close>.\<close>

definition vertexCount :: "bufferGeometry \<Rightarrow> nat" where
  "vertexCount g = (case position g of None \<Rightarrow> 0 | Some p \<Rightarrow> length p div 3)"

text \<open>
  The vertices of a flat position array, and whether a sphere encloses all of them
  (squared distances, so that the test computes).
\<close>

fun vertices :: "real list \<Rightarrow> vec3 list" where
  "vertices (a # b # c # rest) = (a, b, c) # vertices rest"
| "vertices _ = []"

definition inside :: "sphere \<Rightarrow> vec3 \<Rightarrow> bool" where
  "inside s v =
     (case (center s, v) of
        ((cx, cy, cz), (a, b, c)) \<Rightarrow>
          0 \<le> radius s \<and> (a - cx)\<^sup>2 + (b - cy)\<^sup>2 + (c - cz)\<^sup>2 \<le> (radius s)\<^sup>2)"

definition encloses :: "sphere \<Rightarrow> real list \<Rightarrow> bool" where
  "encloses s ps = list_all (inside s) (vertices ps)"

text \<open>
  The sphere that \<open>computeBoundingSphere\<close> of three.js r128 computes, in the engine's
  arithmetic. The centre is the centre of the bounding box, \<open>(min + max) * 0.5\<close> in
  each coordinate, and \<open>(0, 0, 0)\<close> for an empty box; the radius is \<open>Math.sqrt\<close> of
  the largest \<open>center.distanceToSquared(vertex)\<close>, where \<open>a.distanceToSquared(b)\<close> is
  \<open>dx * dx + dy * dy + dz * dz\<close> with \<open>dx = a.x - b.x\<close> and so on. \<open>Math.sqrt\<close>
  returns the double nearest to the square root. \<open>containsPoint\<close> is the library's own
  test of a point against a sphere, \<open>point.distanceToSquared(center) <= radius * radius\<close>.
\<close>

definition Math_sqrt :: "real \<Rightarrow> real" where
  "Math_sqrt v = fl (sqrt v)"

definition distanceToSquared :: "vec3 \<Rightarrow> vec3 \<Rightarrow> real" where
  "distanceToSquared a b =
     (case (a, b) of
        ((ax, ay, az), (bx, by, bz)) \<Rightarrow>
          (let dx = fl (ax - bx); dy = fl (ay - by); dz = fl (az - bz)
           in fl (fl (fl (dx * dx) + fl (dy * dy)) + fl (dz * dz))))"

definition minimum :: "real list \<Rightarrow> real" where
  "minimum xs = fold (\<lambda>x m. if x < m then x else m) (tl xs) (hd xs)"

definition maximum :: "real list \<Rightarrow> real" where
  "maximum xs = fold (\<lambda>x m. if m < x then x else m) (tl xs) (hd xs)"

definition getCenter :: "vec3 list \<Rightarrow> vec3" where
  "getCenter vs =
     (if vs = [] then (0, 0, 0)
      else let xs = map fst vs; ys = map (fst \<circ> snd) vs; zs = map (snd \<circ> snd) vs
           in (fl (fl (minimum xs + maximum xs) * (1 / 2)),
               fl (fl (minimum ys + maximum ys) * (1 / 2)),
               fl (fl (minimum zs + maximum zs) * (1 / 2))))"

definition maxRadiusSq :: "vec3 \<Rightarrow> vec3 list \<Rightarrow> real" where
  "maxRadiusSq c vs = fold (\<lambda>v m. max m (distanceToSquared c v)) vs 0"

definition boundingSphere64 :: "real list \<Rightarrow> sphere" where
  "boundingSphere64 ps =
     (let vs = vertices ps; c = getCenter vs
      in \<lparr>center = c, radius = Math_sqrt (maxRadiusSq c vs)\<rparr>)"

definition containsPoint :: "sphere \<Rightarrow> vec3 \<Rightarrow> bool" where
  "containsPoint s v = (distanceToSquared v (center s) \<le> fl (radius s * radius s))"

text \<open>
  Whether a sphere encloses all the vertices of a position array when its squared
  radius is enlarged by the factor \<open>1 + e\<close>.
\<close>

definition enclosesWithin :: "real \<Rightarrow> sphere \<Rightarrow> real list \<Rightarrow> bool" where
  "enclosesWithin e s ps =
     list_all (\<lambda>v. case (center s, v) of
        ((cx, cy, cz), (a, b, c)) \<Rightarrow>
          0 \<le> radius s \<and> (a - cx)\<^sup>2 + (b - cy)\<^sup>2 + (c - cz)\<^sup>2 \<le> (radius s)\<^sup>2 * (1 + e))
       (vertices ps)"

subsection \<open>modelLoader.js: mergeGeometries\<close>

datatype error = RangeError | TypeError

text \<open>
  The three accumulation loops of \<open>mergeGeometries\<close>: the arrays of the geometries
  that have the attribute, pushed element by element in input order.
\<close>

definition pushAll :: "(bufferGeometry \<Rightarrow> real list option) \<Rightarrow> bufferGeometry list \<Rightarrow> real list" where
  "pushAll attr geometries =
     concat (map (\<lambda>geom. case attr geom of None \<Rightarrow> [] | Some a \<Rightarrow> a) geometries)"

text \<open>
  No statement of \<open>mergeGeometries\<close> raises by itself; an exception can only come
  from the engine, when an accumulated array cannot grow or a \<open>Float32Array\<close> cannot be
  allocated (a \<open>RangeError\<close>). The parameter \<open>storage_fails\<close> says for which array
  lengths that happens.
\<close>

definition mergeGeometries :: "three \<Rightarrow> bufferGeometry list \<Rightarrow> error + bufferGeometry" where
  "mergeGeometries lib geometries =
     (let mergedGeometry = BufferGeometry;
          positions = pushAll position geometries;
          normals = pushAll normal geometries;
          uvs = pushAll uv geometries
      in if storage_fails lib (length positions)
            \<or> (normals \<noteq> [] \<and> storage_fails lib (length normals))
            \<or> (uvs \<noteq> [] \<and> storage_fails lib (length uvs))
         then Inl RangeError
         else
           let mergedGeometry = mergedGeometry\<lparr>position := Some positions\<rparr>;
               mergedGeometry =
                 (if length normals > 0 then mergedGeometry\<lparr>normal := Some normals\<rparr>
                  else computeVertexNormals lib mergedGeometry);
               mergedGeometry =
                 (if length uvs > 0 then mergedGeometry\<lparr>uv := Some uvs\<rparr>
                  else mergedGeometry)
           in Inr (computeBoundingSphere lib mergedGeometry))"

subsection \<open>modelLoader.js: loadAllModels\<close>

text \<open>
  An object of a loaded scene, as \<open>traverse\<close> visits it. A load either calls the
  success callback with the scene's objects in traversal order, or the error callback,
  or neither (it never settles); the loader is a parameter.
\<close>

record object3D =
  isMesh :: bool
  geometry :: "bufferGeometry option"

datatype load = Loaded "object3D list" | LoadError | Pending

record loadedModel =
  path :: string
  model_geometry :: bufferGeometry

datatype 'a promise = Resolved 'a | Unsettled

definition collectGeometries :: "object3D list \<Rightarrow> bufferGeometry list" where
  "collectGeometries scene =
     List.map_filter (\<lambda>child. if isMesh child then geometry child else None) scene"

text \<open>
  The step of the single-geometry branch that makes sure of normals:
  \<open>if (!modelGeometry.attributes.normal) modelGeometry.computeVertexNormals()\<close>.
\<close>

definition ensureNormals :: "three \<Rightarrow> bufferGeometry \<Rightarrow> bufferGeometry" where
  "ensureNormals lib modelGeometry =
     (if normal modelGeometry = None then computeVertexNormals lib modelGeometry
      else modelGeometry)"

text \<open>The success callback of one load: what the promise resolves with.\<close>

definition onLoad :: "three \<Rightarrow> string \<Rightarrow> object3D list \<Rightarrow> loadedModel option" where
  "onLoad lib p scene =
     (case collectGeometries scene of
        [] \<Rightarrow> None
      | [g] \<Rightarrow>
          (let modelGeometry = ensureNormals lib (clone g)
           in Some \<lparr>path = p, model_geometry = modelGeometry\<rparr>)
      | g # _ # _ \<Rightarrow>
          (let modelGeometry =
                 (case mergeGeometries lib (collectGeometries scene) of
                    Inr merged \<Rightarrow> merged
                  | Inl e \<Rightarrow> g)
           in Some \<lparr>path = p, model_geometry = modelGeometry\<rparr>))"

definition loadPromise ::
  "three \<Rightarrow> (string \<Rightarrow> load) \<Rightarrow> string \<Rightarrow> loadedModel option promise" where
  "loadPromise lib gltfLoader p =
     (case gltfLoader p of
        Loaded scene \<Rightarrow> Resolved (onLoad lib p scene)
      | LoadError \<Rightarrow> Resolved None
      | Pending \<Rightarrow> Unsettled)"

text \<open>
  A load is successful when the scene arrives and holds at least one mesh with a
  geometry: exactly then the promise resolves with an entry.
\<close>

definition succeeds :: "(string \<Rightarrow> load) \<Rightarrow> string \<Rightarrow> bool" where
  "succeeds gltfLoader p =
     (case gltfLoader p of Loaded scene \<Rightarrow> collectGeometries scene \<noteq> [] | _ \<Rightarrow> False)"

definition settles :: "(string \<Rightarrow> load) \<Rightarrow> string \<Rightarrow> bool" where
  "settles gltfLoader p = (gltfLoader p \<noteq> Pending)"

text \<open>
  \<open>Promise.all\<close> of promises that never reject: the results in order, once every
  promise has resolved; \<open>None\<close> when some promise never settles.
\<close>

fun Promise_all :: "'a promise list \<Rightarrow> 'a list option" where
  "Promise_all [] = Some []"
| "Promise_all (Unsettled # ps) = None"
| "Promise_all (Resolved v # ps) =
     (case Promise_all ps of None \<Rightarrow> None | Some vs \<Rightarrow> Some (v # vs))"

text \<open>
  \<open>loadAllModels\<close>, from the discovered paths on. \<open>None\<close>: the call never returns.
\<close>

definition loadAllModels ::
  "three \<Rightarrow> (string \<Rightarrow> load) \<Rightarrow> string list \<Rightarrow> loadedModel list option" where
  "loadAllModels lib gltfLoader modelPaths =
     (let loadPromises = map (loadPromise lib gltfLoader) modelPaths
      in case Promise_all loadPromises of
           None \<Rightarrow> None
         | Some results \<Rightarrow>
             (let loadedModels = List.map_filter (\<lambda>model. model) results
              in if length loadedModels = 0 then Some [] else Some loadedModels))"

subsection \<open>main.js: the instance pool\<close>

text \<open>
  The matrix that \<open>dummy.updateMatrix()\<close> composes is determined by the position,
  rotation and scale copied into \<open>dummy\<close>; it is represented by these three. A fresh
  instance buffer holds zeros.
\<close>

datatype matrix4 = ZeroMatrix | Compose vec3 vec3 vec3

record objectState =
  meshIndex :: nat
  instanceIndex :: nat
  position_x :: real
  position_y :: real
  position_z :: real
  rotation_x :: real
  rotation_y :: real
  rotation_z :: real
  scale :: real
  rotationSpeedX :: real
  rotationSpeedZ :: real

text \<open>
  One entry of \<open>instancedMeshes\<close>. \<open>mesh_geometry\<close> and \<open>instanceMatrix\<close> are the
  geometry and the instance matrices of \<open>mesh\<close>; \<open>objects\<close> holds the same object
  states as \<open>allObjects\<close> and is kept as their indices there.
\<close>

record meshData =
  mesh_geometry :: bufferGeometry
  instanceMatrix :: "matrix4 list"
  objects :: "nat list"
  count :: int
  colorArray :: "real list"

text \<open>
  What \<open>initializeScene\<close> builds: the instanced meshes, all object states, and the
  number of \<open>Math.random()\<close> calls made so far. The random numbers are a parameter:
  the \<open>n\<close>-th call returns \<open>random n\<close>.
\<close>

record scene =
  instancedMeshes :: "meshData list"
  allObjects :: "objectState list"
  randomCalls :: nat

text \<open>
  The first \<open>forEach\<close> of \<open>initializeScene\<close>: one instanced mesh per model with a
  positive share of \<open>OBJECT_COUNT\<close>. The state is \<open>instancedMeshes\<close> (here
  \<open>meshes\<close>) and \<open>totalObjectsCreated\<close>.
\<close>

definition newMeshData :: "loadedModel \<Rightarrow> int \<Rightarrow> meshData" where
  "newMeshData model objectsForThisModel =
     \<lparr> mesh_geometry = model_geometry model,
       instanceMatrix = replicate (nat objectsForThisModel) ZeroMatrix,
       objects = [],
       count = objectsForThisModel,
       colorArray = replicate (nat (objectsForThisModel * 3)) 0 \<rparr>"

definition createInstancedMesh ::
  "int \<Rightarrow> int \<Rightarrow> loadedModel \<Rightarrow> meshData list \<times> int \<Rightarrow> meshData list \<times> int" where
  "createInstancedMesh OBJECT_COUNT objectsPerModel model st =
     (case st of (meshes, totalObjectsCreated) \<Rightarrow>
        let objectsForThisModel = min objectsPerModel (OBJECT_COUNT - totalObjectsCreated)
        in if objectsForThisModel \<le> 0 then (meshes, totalObjectsCreated)
           else (meshes @ [newMeshData model objectsForThisModel],
                 totalObjectsCreated + objectsForThisModel))"

definition createInstancedMeshes :: "int \<Rightarrow> loadedModel list \<Rightarrow> meshData list \<times> int" where
  "createInstancedMeshes OBJECT_COUNT loadedModels =
     (let objectsPerModel = Math_ceil (of_int OBJECT_COUNT / of_nat (length loadedModels))
      in fold (createInstancedMesh OBJECT_COUNT objectsPerModel) loadedModels ([], 0))"

text \<open>
  The partition rule in the words of the specification: in order, each model receives
  \<open>min(perModel, N - alreadyAssigned)\<close>. The list holds every model's share, also
  the shares that are zero.
\<close>

fun assignedCounts :: "int \<Rightarrow> int \<Rightarrow> int \<Rightarrow> 'a list \<Rightarrow> int list" where
  "assignedCounts N perModel alreadyAssigned [] = []"
| "assignedCounts N perModel alreadyAssigned (m # ms) =
     (let k = min perModel (N - alreadyAssigned)
      in k # assignedCounts N perModel (alreadyAssigned + k) ms)"

text \<open>
  The body of the inner \<open>for\<close> loop: a new object state from nine random numbers, a
  random colour into \<open>colorArray\<close>, the initial matrix into the instance buffer. A
  write past the end of a typed array is ignored, as \<open>list_update\<close> is.
\<close>

definition newObjectState :: "config \<Rightarrow> (nat \<Rightarrow> real) \<Rightarrow> nat \<Rightarrow> nat \<Rightarrow> nat \<Rightarrow> objectState" where
  "newObjectState cfg random n mi i =
     \<lparr> meshIndex = mi,
       instanceIndex = i,
       position_x = (random n - 1 / 2) * X_SPREAD cfg,
       position_y = Y_OFFSET cfg + (random (n + 1) - 1 / 2) * Y_SPREAD cfg,
       position_z = (random (n + 2) - 1 / 2) * Z_SPREAD cfg,
       rotation_x = random (n + 3) * pi,
       rotation_y = random (n + 4) * pi,
       rotation_z = random (n + 5) * pi,
       scale = random (n + 6) * (MAX_SCALE cfg - MIN_SCALE cfg) + MIN_SCALE cfg,
       rotationSpeedX = (random (n + 7) - 1 / 2) * MAX_ROTATION_SPEED cfg,
       rotationSpeedZ = (random (n + 8) - 1 / 2) * MAX_ROTATION_SPEED cfg \<rparr>"

definition colorAt :: "int \<Rightarrow> nat option" where
  "colorAt k =
     (if 0 \<le> k \<and> k < int (length OBJECT_COLORS) then Some (OBJECT_COLORS ! nat k) else None)"

definition matrixOf :: "objectState \<Rightarrow> matrix4" where
  "matrixOf obj =
     Compose (position_x obj, position_y obj, position_z obj)
       (rotation_x obj, rotation_y obj, rotation_z obj)
       (scale obj, scale obj, scale obj)"

definition initInstance ::
  "config \<Rightarrow> three \<Rightarrow> (nat \<Rightarrow> real) \<Rightarrow> nat \<Rightarrow> nat \<Rightarrow>
   meshData \<times> objectState list \<times> nat \<Rightarrow> meshData \<times> objectState list \<times> nat" where
  "initInstance cfg lib random mi i st =
     (case st of (md, objs, n) \<Rightarrow>
        let objectState = newObjectState cfg random n mi i;
            randomColor = colorAt \<lfloor>random (n + 9) * of_nat (length OBJECT_COLORS)\<rfloor>
        in case Color lib randomColor of (r, g, b) \<Rightarrow>
             (md\<lparr> objects := objects md @ [length objs],
                 colorArray := (colorArray md)[i * 3 := r, i * 3 + 1 := g, i * 3 + 2 := b],
                 instanceMatrix := (instanceMatrix md)[i := matrixOf objectState] \<rparr>,
              objs @ [objectState],
              n + 10))"

text \<open>The second \<open>forEach\<close>: every instanced mesh, with its index, in order.\<close>

fun initMeshes ::
  "config \<Rightarrow> three \<Rightarrow> (nat \<Rightarrow> real) \<Rightarrow> nat \<Rightarrow> meshData list \<Rightarrow>
   meshData list \<times> objectState list \<times> nat \<Rightarrow> meshData list \<times> objectState list \<times> nat" where
  "initMeshes cfg lib random mi [] st = st"
| "initMeshes cfg lib random mi (md # mds) (done, objs, n) =
     (case fold (initInstance cfg lib random mi) [0 ..< nat (count md)] (md, objs, n) of
        (md', objs', n') \<Rightarrow> initMeshes cfg lib random (Suc mi) mds (done @ [md'], objs', n'))"

definition populate :: "config \<Rightarrow> three \<Rightarrow> (nat \<Rightarrow> real) \<Rightarrow> loadedModel list \<Rightarrow> scene" where
  "populate cfg lib random loadedModels =
     (case createInstancedMeshes (calculateObjectCount cfg) loadedModels of
        (created, totalObjectsCreated) \<Rightarrow>
          (case initMeshes cfg lib random 0 created ([], [], 0) of
             (meshes, objs, n) \<Rightarrow>
               \<lparr> instancedMeshes = meshes, allObjects = objs, randomCalls = n \<rparr>))"

text \<open>
  \<open>initializeScene\<close> up to the first call of \<open>animate\<close>. \<open>None\<close>: the loading never
  returns; \<open>Some None\<close>: no model was loaded and nothing is built.
\<close>

definition initializeScene ::
  "config \<Rightarrow> three \<Rightarrow> (string \<Rightarrow> load) \<Rightarrow> (nat \<Rightarrow> real) \<Rightarrow> string list \<Rightarrow> scene option option" where
  "initializeScene cfg lib gltfLoader random modelPaths =
     (case loadAllModels lib gltfLoader modelPaths of
        None \<Rightarrow> None
      | Some loadedModels \<Rightarrow>
          if length loadedModels = 0 then Some None
          else Some (Some (populate cfg lib random loadedModels)))"

subsection \<open>main.js: animate\<close>





text \<open>
  \<open>instancedMeshes[obj.meshIndex]\<close> is \<open>undefined\<close> for an index out of range, and
  reading its \<open>mesh\<close> raises a \<open>TypeError\<close>.
\<close>

definition writeMatrix :: "meshData list \<Rightarrow> objectState \<Rightarrow> error + meshData list" where
  "writeMatrix meshes obj =
     (if meshIndex obj < length meshes
      then let meshData = meshes ! meshIndex obj
           in Inr (meshes[meshIndex obj :=
                 meshData\<lparr>instanceMatrix := (instanceMatrix meshData)[instanceIndex obj := matrixOf obj]\<rparr>])
      else Inl TypeError)"




subsection \<open>Well-formed scenes and sample data\<close>

text \<open>
  Every object state that \<open>initializeScene\<close> creates carries the index of an existing
  instanced mesh; \<open>wellIndexed\<close> says so of a scene.
\<close>

definition wellIndexed :: "scene \<Rightarrow> bool" where
  "wellIndexed s = list_all (\<lambda>obj. meshIndex obj < length (instancedMeshes s)) (allObjects s)"





text \<open>
  Sample geometries (a triangle and a quadrilateral with normals and texture
  coordinates), a sample library and a sample loader, for the examples.
\<close>

definition triangle :: bufferGeometry where
  "triangle =
     \<lparr> index = None,
       position = Some [0, 0, 0, 1, 0, 0, 0, 1, 0],
       normal = Some [0, 0, 1, 0, 0, 1, 0, 0, 1],
       uv = Some [0, 0, 1, 0, 0, 1],
       boundingSphere = None \<rparr>"

definition quad :: bufferGeometry where
  "quad =
     \<lparr> index = None,
       position = Some [0, 0, 2, 1, 0, 2, 1, 1, 2, 0, 1, 2],
       normal = Some [0, 0, - 1, 0, 0, - 1, 0, 0, - 1, 0, 0, - 1],
       uv = Some [0, 0, 1, 0, 1, 1, 0, 1],
       boundingSphere = None \<rparr>"

definition sampleThree :: three where
  "sampleThree =
     \<lparr> vertexNormals = (\<lambda>idx ps. concat (replicate (length ps div 3) [0, 1, 0])),
       boundingSphereOf = boundingSphere64,
       Color = (\<lambda>c. case c of
                  None \<Rightarrow> (1, 1, 1)
                | Some h \<Rightarrow> (real (h div 65536 mod 256) / 255, real (h div 256 mod 256) / 255,
                            real (h mod 256) / 255)),
       storage_fails = (\<lambda>n. False) \<rparr>"

definition sampleLoader :: "string \<Rightarrow> load" where
  "sampleLoader p =
     (if p = ''models/one.glb'' then Loaded [\<lparr>isMesh = False, geometry = None\<rparr>,
                                            \<lparr>isMesh = True, geometry = Some triangle\<rparr>]
      else if p = ''models/two.glb'' then Loaded [\<lparr>isMesh = True, geometry = Some (triangle\<lparr>normal := None\<rparr>)\<rparr>,
                                                 \<lparr>isMesh = True, geometry = Some quad\<rparr>]
      else if p = ''models/empty.glb'' then Loaded [\<lparr>isMesh = False, geometry = None\<rparr>]
      else LoadError)"

subsection \<open>main.js: animate in double arithmetic\<close>

text \<open>
  The same callback and the same loop with every operation rounded to a double, as the
  code computes them: \<open>a - b\<close> of the code is \<open>fl (a - b)\<close>. The matrix write is
  \<open>writeMatrix\<close> above. \<open>CONFIG64\<close> holds the values of config.js as the doubles they
  are read as.
\<close>

definition CONFIG64 :: config where
  "CONFIG64 = CONFIG\<lparr> MIN_SCALE := fl (2 / 100), MAX_SCALE := fl (1 / 10),
     FALL_SPEED := fl (8 / 10), ROTATION_MULTIPLIER := fl (2 / 100) \<rparr>"

definition fall64 :: "config \<Rightarrow> objectState \<Rightarrow> objectState" where
  "fall64 cfg obj =
     obj\<lparr> position_y := fl (position_y obj - FALL_SPEED cfg),
          rotation_x := fl (rotation_x obj + fl (rotationSpeedX obj * ROTATION_MULTIPLIER cfg)),
          rotation_z := fl (rotation_z obj + fl (rotationSpeedZ obj * ROTATION_MULTIPLIER cfg)) \<rparr>"

definition recycleThreshold64 :: "config \<Rightarrow> real" where
  "recycleThreshold64 cfg = fl (fl (Y_OFFSET cfg - fl (Y_SPREAD cfg / 2)) - 10)"

definition recycle64 :: "config \<Rightarrow> (nat \<Rightarrow> real) \<Rightarrow> objectState \<times> nat \<Rightarrow> objectState \<times> nat" where
  "recycle64 cfg random st =
     (case st of (obj, n) \<Rightarrow>
        if position_y obj < recycleThreshold64 cfg
        then (obj\<lparr> position_y := fl (Y_OFFSET cfg + fl (Y_SPREAD cfg / 2)),
                   position_x := fl (fl (random n - 1 / 2) * X_SPREAD cfg),
                   position_z := fl (fl (random (n + 1) - 1 / 2) * Z_SPREAD cfg) \<rparr>,
              n + 2)
        else (obj, n))"

definition updateObject64 :: "config \<Rightarrow> (nat \<Rightarrow> real) \<Rightarrow> objectState \<times> nat \<Rightarrow> objectState \<times> nat" where
  "updateObject64 cfg random st =
     (case st of (obj, n) \<Rightarrow> recycle64 cfg random (fall64 cfg obj, n))"

fun forEachObject64 ::
  "config \<Rightarrow> (nat \<Rightarrow> real) \<Rightarrow> objectState list \<Rightarrow>
   objectState list \<times> meshData list \<times> nat \<Rightarrow> error + objectState list \<times> meshData list \<times> nat" where
  "forEachObject64 cfg random [] st = Inr st"
| "forEachObject64 cfg random (obj # rest) (done, meshes, n) =
     (case updateObject64 cfg random (obj, n) of
        (obj', n') \<Rightarrow>
          (case writeMatrix meshes obj' of
             Inl e \<Rightarrow> Inl e
           | Inr meshes' \<Rightarrow> forEachObject64 cfg random rest (done @ [obj'], meshes', n')))"

definition animate64 :: "config \<Rightarrow> (nat \<Rightarrow> real) \<Rightarrow> scene \<Rightarrow> error + scene" where
  "animate64 cfg random s =
     (case forEachObject64 cfg random (allObjects s) ([], instancedMeshes s, randomCalls s) of
        Inl e \<Rightarrow> Inl e
      | Inr (objs, meshes, n) \<Rightarrow>
          Inr \<lparr> instancedMeshes = meshes, allObjects = objs, randomCalls = n \<rparr>)"

fun frames64 :: "nat \<Rightarrow> config \<Rightarrow> (nat \<Rightarrow> real) \<Rightarrow> scene \<Rightarrow> error + scene" where
  "frames64 0 cfg random s = Inr s"
| "frames64 (Suc k) cfg random s =
     (case animate64 cfg random s of Inl e \<Rightarrow> Inl e | Inr s' \<Rightarrow> frames64 k cfg random s')"

text \<open>
  \<open>k\<close> additions of \<open>a\<close> to \<open>v\<close>, each rounded to a double: what \<open>v += a\<close> (and
  \<open>v -= d\<close>, with \<open>a = - d\<close>) leaves after \<open>k\<close> frames.
\<close>

fun addRepeatedly :: "nat \<Rightarrow> real \<Rightarrow> real \<Rightarrow> real" where
  "addRepeatedly 0 a v = v"
| "addRepeatedly (Suc k) a v = fl (addRepeatedly k a v + a)"

text \<open>
  A sample object whose values are doubles, and the scene of one mesh that holds only
  that object, after \<open>n\<close> random numbers have been drawn.
\<close>

definition object64 :: "real \<Rightarrow> real \<Rightarrow> real \<Rightarrow> real \<Rightarrow> real \<Rightarrow> objectState" where
  "object64 x y z rx rz =
     \<lparr> meshIndex = 0, instanceIndex = 0,
       position_x = x, position_y = y, position_z = z,
       rotation_x = rx, rotation_y = 2, rotation_z = rz,
       scale = 1 / 16, rotationSpeedX = 1 / 8, rotationSpeedZ = - 1 / 4 \<rparr>"

definition scene64 :: "objectState \<Rightarrow> nat \<Rightarrow> scene" where
  "scene64 obj n =
     \<lparr> instancedMeshes =
         [\<lparr> mesh_geometry = BufferGeometry,
            instanceMatrix = [matrixOf obj],
            objects = [0],
            count = 1,
            colorArray = [1, 0, 0] \<rparr>],
       allObjects = [obj],
       randomCalls = n \<rparr>"

abbreviation stepped64 :: "config \<Rightarrow> (nat \<Rightarrow> real) \<Rightarrow> objectState \<Rightarrow> objectState \<Rightarrow> bool" where
  "stepped64 cfg random obj obj' \<equiv> (\<exists>n. obj' = fst (updateObject64 cfg random (obj, n)))"

section \<open>Theorems\<close>

subsection \<open>Double-precision arithmetic\<close>

lemma pow2_powr: "pow2 e = 2 powr (of_int e)"
  by (simp add: pow2_def powr_real_of_int inverse_eq_divide)

lemma pow2_pos: "0 < pow2 e"
  by (simp add: pow2_powr)

lemma pow2_add: "pow2 (a + b) = pow2 a * pow2 b"
  by (simp add: pow2_powr powr_add)

lemma pow_le_of_int: "(2::int) ^ k \<le> m \<Longrightarrow> (2::real) ^ k \<le> of_int m"
  by (metis of_int_le_iff of_int_numeral of_int_power)

lemma of_int_le_pow: "m \<le> (2::int) ^ k \<Longrightarrow> of_int m \<le> (2::real) ^ k"
  by (metis of_int_le_iff of_int_numeral of_int_power)

lemma exponent_bounds:
  assumes "v \<noteq> 0"
  shows "pow2 (exponent v) \<le> \<bar>v\<bar>" and "\<bar>v\<bar> < pow2 (exponent v + 1)"
proof -
  let ?a = "\<bar>v\<bar>"
  have a: "0 < ?a" using assms by simp
  have "pow2 (exponent v) \<le> ?a \<and> ?a < pow2 (exponent v + 1)"
  proof (cases "1 \<le> ?a")
    case True
    let ?n = "\<lfloor>?a\<rfloor>"
    have n: "0 < ?n" using True by linarith
    from bitlen_bounds[OF n] have lo: "2 ^ nat (bitlen ?n - 1) \<le> ?n"
      and hi: "?n < 2 ^ nat (bitlen ?n)" by simp_all
    have b1: "1 \<le> bitlen ?n" using n by (simp add: bitlen_alt_def)
    have e: "exponent v = bitlen ?n - 1" using True by (simp add: exponent_def)
    have "pow2 (exponent v) = 2 ^ nat (bitlen ?n - 1)"
      using b1 by (simp add: e pow2_def)
    also have "\<dots> \<le> of_int ?n" using lo by (rule pow_le_of_int)
    also have "\<dots> \<le> ?a" by (rule of_int_floor_le)
    finally have low: "pow2 (exponent v) \<le> ?a" .
    from hi have "?n + 1 \<le> 2 ^ nat (bitlen ?n)" by simp
    then have "of_int (?n + 1) \<le> (2 ^ nat (bitlen ?n) :: real)"
      by (rule of_int_le_pow)
    moreover have "?a < of_int (?n + 1)" by linarith
    ultimately have "?a < 2 ^ nat (bitlen ?n)" by (rule less_le_trans[rotated])
    moreover have "pow2 (exponent v + 1) = 2 ^ nat (bitlen ?n)"
      using b1 by (simp add: e pow2_def)
    ultimately show ?thesis using low by simp
  next
    case False
    let ?y = "1 / ?a"
    let ?m = "\<lceil>?y\<rceil> - 1"
    have y: "1 < ?y" using False a by simp
    then have m: "0 < ?m" by linarith
    from bitlen_bounds[OF m] have lo: "2 ^ nat (bitlen ?m - 1) \<le> ?m"
      and hi: "?m < 2 ^ nat (bitlen ?m)" by simp_all
    have b1: "1 \<le> bitlen ?m" using m by (simp add: bitlen_alt_def)
    have e: "exponent v = - bitlen ?m" using False by (simp add: exponent_def)
    have p0: "pow2 (exponent v) = 1 / 2 ^ nat (bitlen ?m)"
      using b1 by (simp add: e pow2_def)
    have p1: "pow2 (exponent v + 1) = 1 / 2 ^ nat (bitlen ?m - 1)"
    proof (cases "bitlen ?m = 1")
      case True then show ?thesis by (simp add: e pow2_def)
    next
      case False
      then have "\<not> 0 \<le> - bitlen ?m + 1" using b1 by simp
      moreover have "- (- bitlen ?m + 1) = bitlen ?m - 1" by simp
      ultimately show ?thesis by (simp add: e pow2_def)
    qed
    from hi have "\<lceil>?y\<rceil> \<le> 2 ^ nat (bitlen ?m)" by simp
    then have "of_int \<lceil>?y\<rceil> \<le> (2 ^ nat (bitlen ?m) :: real)" by (rule of_int_le_pow)
    moreover have "?y \<le> of_int \<lceil>?y\<rceil>" by (rule le_of_int_ceiling)
    ultimately have "?y \<le> 2 ^ nat (bitlen ?m)" by (rule order_trans[rotated])
    then have "1 \<le> 2 ^ nat (bitlen ?m) * ?a"
      using a by (simp add: pos_divide_le_eq)
    then have low: "1 / 2 ^ nat (bitlen ?m) \<le> ?a"
      by (simp add: pos_divide_le_eq mult.commute)
    have "(2 ^ nat (bitlen ?m - 1) :: real) \<le> of_int ?m"
      using lo by (rule pow_le_of_int)
    moreover have "of_int ?m < ?y" by linarith
    ultimately have "2 ^ nat (bitlen ?m - 1) < ?y" by (rule le_less_trans)
    then have "2 ^ nat (bitlen ?m - 1) * ?a < 1"
      using a by (simp add: pos_less_divide_eq)
    then have "?a < 1 / 2 ^ nat (bitlen ?m - 1)"
      by (simp add: pos_less_divide_eq mult.commute)
    with low p0 p1 show ?thesis by simp
  qed
  then show "pow2 (exponent v) \<le> \<bar>v\<bar>" and "\<bar>v\<bar> < pow2 (exponent v + 1)" by simp_all
qed

lemma roundEven_error: "\<bar>of_int (roundEven y) - y\<bar> \<le> 1 / 2"
proof -
  have "of_int \<lfloor>y\<rfloor> \<le> y" "y < of_int \<lfloor>y\<rfloor> + 1" by linarith+
  then show ?thesis
    by (auto simp: roundEven_def Let_def)
qed

lemma fl_error: "\<bar>fl v - v\<bar> \<le> \<bar>v\<bar> / 2 ^ 53"
proof (cases "v = 0")
  case True
  then show ?thesis by (simp add: fl_def)
next
  case False
  let ?u = "pow2 (exponent v - 52)"
  have u: "0 < ?u" by (rule pow2_pos)
  have "fl v - v = (of_int (roundEven (v / ?u)) - v / ?u) * ?u"
    using False u by (simp add: fl_def Let_def algebra_simps)
  then have "\<bar>fl v - v\<bar> = \<bar>of_int (roundEven (v / ?u)) - v / ?u\<bar> * ?u"
    using u by (simp add: abs_mult)
  also have "\<dots> \<le> 1 / 2 * ?u"
    using roundEven_error[of "v / ?u"] u by (intro mult_right_mono) simp_all
  also have "?u = pow2 (exponent v) * pow2 (- 52)"
    using pow2_add[of "exponent v" "- 52"] by simp
  also have "pow2 (- 52) = 1 / 2 ^ 52" by (simp add: pow2_def)
  finally have "\<bar>fl v - v\<bar> \<le> pow2 (exponent v) / 2 ^ 53" by simp
  also have "\<dots> \<le> \<bar>v\<bar> / 2 ^ 53"
    using exponent_bounds(1)[OF False] by (simp add: divide_right_mono)
  finally show ?thesis .
qed

lemmas fl_eval = fl_def exponent_def pow2_def roundEven_def compute_bitlen Let_def



subsection \<open>The object count\<close>






subsection \<open>The instance pool\<close>

lemma create_skip:
  "min per (N - tot) \<le> 0 \<Longrightarrow> createInstancedMesh N per m (bs, tot) = (bs, tot)"
  by (simp add: createInstancedMesh_def Let_def)

lemma create_add:
  "0 < min per (N - tot) \<Longrightarrow>
   createInstancedMesh N per m (bs, tot) =
     (bs @ [newMeshData m (min per (N - tot))], tot + min per (N - tot))"
  by (auto simp add: createInstancedMesh_def Let_def newMeshData_def)

lemma fold_create:
  "0 \<le> per \<Longrightarrow> tot \<le> N \<Longrightarrow>
   fold (createInstancedMesh N per) ms (bs, tot) =
     (bs @ map (\<lambda>mk. newMeshData (fst mk) (snd mk)) (filter (\<lambda>mk. 0 < snd mk) (zip ms (assignedCounts N per tot ms))),
      min N (tot + int (length ms) * per))"
proof (induction ms arbitrary: bs tot)
  case Nil
  then show ?case by simp
next
  case (Cons m ms)
  let ?k = "min per (N - tot)"
  have k0: "0 \<le> ?k" using Cons.prems by simp
  have le: "tot + ?k \<le> N" by simp
  have nn: "0 \<le> int (length ms) * per" "0 \<le> per * int (length ms)"
    using Cons.prems by simp_all
  show ?case
  proof (cases "?k \<le> 0")
    case True
    then have kz: "?k = 0" using k0 by linarith
    then consider "per = 0" | "tot = N" by (auto simp: min_def split: if_splits)
    then have "min N (tot + int (length ms) * per) = min N (tot + (1 + int (length ms)) * per)"
    proof cases
      case 1 then show ?thesis by simp
    next
      case 2 then show ?thesis using nn Cons.prems(1) by (simp add: algebra_simps min_def)
    qed
    then show ?thesis
      using Cons.IH[OF Cons.prems(1) Cons.prems(2), of bs] kz True
      by (simp add: create_skip Let_def)
  next
    case False
    have "min N (tot + ?k + int (length ms) * per) = min N (tot + (1 + int (length ms)) * per)"
    proof (cases "per \<le> N - tot")
      case True then show ?thesis by (simp add: algebra_simps)
    next
      case False
      then have "min per (N - tot) = N - tot" by simp
      moreover have "N \<le> tot + (1 + int (length ms)) * per"
        using False nn by (simp add: algebra_simps)
      ultimately show ?thesis using nn(1) by simp
    qed
    moreover have "0 < ?k" using False by linarith
    then have "createInstancedMesh N per m (bs, tot) = (bs @ [newMeshData m ?k], tot + ?k)"
      by (rule create_add)
    moreover have "filter (\<lambda>mk. 0 < snd mk) [(m, ?k)] = [(m, ?k)]"
      using \<open>0 < ?k\<close> by (simp del: min_less_iff_conj)
    ultimately show ?thesis
      using Cons.IH[OF Cons.prems(1) le, of "bs @ [newMeshData m ?k]"] \<open>0 < ?k\<close>
      by (simp add: Let_def del: min_less_iff_conj)
  qed
qed

lemma assigned_bounds:
  "0 \<le> per \<Longrightarrow> tot \<le> N \<Longrightarrow> k \<in> set (assignedCounts N per tot ms) \<Longrightarrow> 0 \<le> k \<and> k \<le> per"
proof (induction ms arbitrary: tot)
  case Nil
  then show ?case by simp
next
  case (Cons m ms)
  have le: "tot + min per (N - tot) \<le> N" by simp
  from Cons.prems(3) consider "k = min per (N - tot)"
    | "k \<in> set (assignedCounts N per (tot + min per (N - tot)) ms)"
    by (auto simp: Let_def)
  then show ?case
  proof cases
    case 1 then show ?thesis using Cons.prems(1,2) by simp
  next
    case 2 then show ?thesis using Cons.IH[OF Cons.prems(1) le] by simp
  qed
qed

lemma assigned_prefix_sum:
  "0 \<le> per \<Longrightarrow> tot \<le> N \<Longrightarrow> tot + sum_list (take j (assignedCounts N per tot ms)) \<le> N"
proof (induction ms arbitrary: tot j)
  case Nil
  then show ?case by simp
next
  case (Cons m ms)
  have le: "tot + min per (N - tot) \<le> N" by simp
  show ?case
  proof (cases j)
    case 0 then show ?thesis using Cons.prems by simp
  next
    case (Suc i)
    then show ?thesis using Cons.IH[OF Cons.prems(1) le, of i] by (simp add: Let_def add.assoc)
  qed
qed

lemma assigned_sum:
  "0 \<le> per \<Longrightarrow> tot \<le> N \<Longrightarrow>
   tot + sum_list (assignedCounts N per tot ms) = min N (tot + int (length ms) * per)"
proof (induction ms arbitrary: tot)
  case Nil
  then show ?case by simp
next
  case (Cons m ms)
  have le: "tot + min per (N - tot) \<le> N" by simp
  have nn: "0 \<le> int (length ms) * per" using Cons.prems by simp
  have "min N (tot + min per (N - tot) + int (length ms) * per)
        = min N (tot + (1 + int (length ms)) * per)"
  proof (cases "per \<le> N - tot")
    case True then show ?thesis by (simp add: algebra_simps)
  next
    case False
    then have "min per (N - tot) = N - tot" by simp
    moreover have "N \<le> tot + (1 + int (length ms)) * per"
      using False nn by (simp add: algebra_simps)
    ultimately show ?thesis using nn by simp
  qed
  then show ?case using Cons.IH[OF Cons.prems(1) le] by (simp add: Let_def add.assoc)
qed

lemma sum_positive_part:
  "length ms = length ks \<Longrightarrow> \<forall>k \<in> set ks. (0::int) \<le> k \<Longrightarrow>
   sum_list (map snd (filter (\<lambda>mk. 0 < snd mk) (zip ms ks))) = sum_list ks"
proof (induction ms ks rule: list_induct2)
  case Nil
  then show ?case by simp
next
  case (Cons m ms k ks)
  then show ?case by (cases "0 < k") auto
qed

lemma length_assigned: "length (assignedCounts N per tot ms) = length ms"
  by (induction ms arbitrary: tot) (simp_all add: Let_def)

lemma ceil_share:
  assumes "0 \<le> N" "0 < M"
  shows "0 \<le> Math_ceil (of_int N / of_nat M)" "N \<le> int M * Math_ceil (of_int N / of_nat M)"
proof -
  let ?c = "Math_ceil (of_int N / of_nat M)"
  have "0 \<le> (of_int N :: real) / of_nat M" using assms by simp
  then show "0 \<le> ?c" unfolding Math_ceil_def by linarith
  have "(of_int N :: real) / of_nat M \<le> of_int ?c" unfolding Math_ceil_def by linarith
  then have "(of_int N :: real) \<le> of_int ?c * of_nat M"
    using assms(2) by (simp add: pos_divide_le_eq)
  then have "(of_int N :: real) \<le> of_int (int M * ?c)" by (simp add: mult.commute)
  then show "N \<le> int M * ?c" using of_int_le_iff by blast
qed

lemma share_48_5:
  "map count (fst (createInstancedMeshes 48 [a, b, c, d, e])) = [10, 10, 10, 10, 8]"
  by (simp add: createInstancedMeshes_def createInstancedMesh_def newMeshData_def
      Math_ceil_def Let_def)

text \<open>
  C2. For every target count N \<ge> 0 and every non-empty ordered list of M loaded
  models, the pool builder works with perModel = ceil(N / M); its instanced meshes are,
  in order, those of the models whose share min(perModel, N - alreadyAssigned) is
  positive, each with that share as its count (no mesh for a share of zero); every
  share lies between 0 and perModel, the shares of any first j models sum to at most
  N, every mesh's count is positive, at most perModel and at most N, and the counts
  of the meshes sum to N, which is also the final totalObjectsCreated.
\<close>

theorem createInstancedMeshes_partition:
  assumes "0 \<le> N" and "loadedModels \<noteq> []"
  shows "let perModel = \<lceil>of_int N / of_nat (length loadedModels) :: real\<rceil>;
             assigned = assignedCounts N perModel 0 loadedModels;
             meshes = fst (createInstancedMeshes N loadedModels)
         in meshes = map (\<lambda>mk. newMeshData (fst mk) (snd mk)) (filter (\<lambda>mk. 0 < snd mk) (zip loadedModels assigned))
          \<and> (\<forall>k \<in> set assigned. 0 \<le> k \<and> k \<le> perModel)
          \<and> (\<forall>j. sum_list (take j assigned) \<le> N)
          \<and> sum_list assigned = N
          \<and> (\<forall>b \<in> set meshes. 0 < count b \<and> count b \<le> perModel \<and> count b \<le> N)
          \<and> sum_list (map count meshes) = N
          \<and> snd (createInstancedMeshes N loadedModels) = N"
proof -
  let ?M = "length loadedModels"
  let ?per = "Math_ceil (of_int N / of_nat ?M)"
  let ?as = "assignedCounts N ?per 0 loadedModels"
  let ?sel = "filter (\<lambda>mk. 0 < snd mk) (zip loadedModels ?as)"
  have M: "0 < ?M" using assms(2) by simp
  have per: "0 \<le> ?per" and cover: "N \<le> int ?M * ?per"
    using ceil_share[OF assms(1) M] by simp_all
  have run: "createInstancedMeshes N loadedModels = (map (\<lambda>mk. newMeshData (fst mk) (snd mk)) ?sel, N)"
    using fold_create[OF per assms(1), of loadedModels "[]"] cover
    by (simp add: createInstancedMeshes_def Let_def)
  have bounds: "\<forall>k \<in> set ?as. 0 \<le> k \<and> k \<le> ?per"
    using assigned_bounds[OF per assms(1)] by blast
  have prefix: "\<forall>j. sum_list (take j ?as) \<le> N"
    using assigned_prefix_sum[OF per assms(1), of _ loadedModels] by simp
  have total: "sum_list ?as = N"
    using assigned_sum[OF per assms(1), of loadedModels] cover by simp
  have cnt: "map count (map (\<lambda>mk. newMeshData (fst mk) (snd mk)) ?sel) = map snd ?sel"
    by (simp add: newMeshData_def)
  have sum: "sum_list (map count (map (\<lambda>mk. newMeshData (fst mk) (snd mk)) ?sel)) = N"
    unfolding cnt using sum_positive_part[of loadedModels ?as] bounds total
    by (simp add: length_assigned)
  have each: "\<forall>b \<in> set (map (\<lambda>mk. newMeshData (fst mk) (snd mk)) ?sel). 0 < count b \<and> count b \<le> ?per \<and> count b \<le> N"
  proof
    fix b assume "b \<in> set (map (\<lambda>mk. newMeshData (fst mk) (snd mk)) ?sel)"
    then obtain m k where mk: "(m, k) \<in> set ?sel" and b: "b = newMeshData m k" by auto
    from mk have "0 < k" and "k \<in> set ?as" by (auto dest: set_zip_rightD)
    moreover from \<open>k \<in> set ?as\<close> obtain i where "i < length ?as" "?as ! i = k"
      by (auto simp: in_set_conv_nth)
    then have "k \<le> sum_list ?as" using bounds
      by (metis member_le_sum_list nth_mem)
    ultimately show "0 < count b \<and> count b \<le> ?per \<and> count b \<le> N"
      using bounds total b by (simp add: newMeshData_def)
  qed
  show ?thesis
    using run bounds prefix total each sum by (simp add: Let_def Math_ceil_def)
qed

theorem createInstancedMeshes_partition_witness:
  "sum_list (map count (fst (createInstancedMeshes 48
      (replicate 5 \<lparr>path = ''models/dd.glb'', model_geometry = BufferGeometry\<rparr>)))) = 48
   \<and> snd (createInstancedMeshes 48
      (replicate 5 \<lparr>path = ''models/dd.glb'', model_geometry = BufferGeometry\<rparr>)) = 48"
proof -
  let ?ms = "replicate 5 \<lparr>path = ''models/dd.glb'', model_geometry = BufferGeometry\<rparr>"
  have n: "(0::int) \<le> 48" by simp
  have ms: "?ms \<noteq> []" by simp
  from createInstancedMeshes_partition [OF n ms] show ?thesis
    unfolding Let_def by blast
qed

subsection \<open>The frame update\<close>



lemma writeMatrix_Inr:
  "writeMatrix meshes obj = Inr meshes' \<Longrightarrow>
     meshIndex obj < length meshes \<and> length meshes' = length meshes
     \<and> map colorArray meshes' = map colorArray meshes
     \<and> map count meshes' = map count meshes
     \<and> map mesh_geometry meshes' = map mesh_geometry meshes"
  by (auto simp: writeMatrix_def Let_def map_update list_update_same_conv split: if_splits)

lemma writeMatrix_defined:
  "meshIndex obj < length meshes \<Longrightarrow> \<exists>meshes'. writeMatrix meshes obj = Inr meshes'"
  by (simp add: writeMatrix_def Let_def)














lemma updateObject64_y:
  "position_y (fst (updateObject64 cfg random (obj, n))) =
     (if fl (position_y obj - FALL_SPEED cfg) < recycleThreshold64 cfg
      then fl (Y_OFFSET cfg + fl (Y_SPREAD cfg / 2))
      else fl (position_y obj - FALL_SPEED cfg))"
  by (simp add: updateObject64_def recycle64_def fall64_def)

lemma updateObject64_kept:
  "meshIndex (fst (updateObject64 cfg random (obj, n))) = meshIndex obj"
  "instanceIndex (fst (updateObject64 cfg random (obj, n))) = instanceIndex obj"
  "scale (fst (updateObject64 cfg random (obj, n))) = scale obj"
  "rotationSpeedX (fst (updateObject64 cfg random (obj, n))) = rotationSpeedX obj"
  "rotationSpeedZ (fst (updateObject64 cfg random (obj, n))) = rotationSpeedZ obj"
  "rotation_y (fst (updateObject64 cfg random (obj, n))) = rotation_y obj"
  "rotation_x (fst (updateObject64 cfg random (obj, n))) =
     fl (rotation_x obj + fl (rotationSpeedX obj * ROTATION_MULTIPLIER cfg))"
  "rotation_z (fst (updateObject64 cfg random (obj, n))) =
     fl (rotation_z obj + fl (rotationSpeedZ obj * ROTATION_MULTIPLIER cfg))"
  by (simp_all add: updateObject64_def recycle64_def fall64_def)

lemma forEachObject64_Inr:
  "forEachObject64 cfg random objs (done, meshes, n) = Inr (objs', meshes', n') \<Longrightarrow>
   \<exists>news. objs' = done @ news \<and> list_all2 (stepped64 cfg random) objs news
     \<and> length meshes' = length meshes
     \<and> map colorArray meshes' = map colorArray meshes"
proof (induction objs arbitrary: "done" meshes n)
  case Nil
  then show ?case by simp
next
  case (Cons obj rest)
  obtain obj1 n1 where u: "updateObject64 cfg random (obj, n) = (obj1, n1)"
    by (cases "updateObject64 cfg random (obj, n)")
  from Cons.prems u obtain meshes1 where
    w: "writeMatrix meshes obj1 = Inr meshes1" and
    r: "forEachObject64 cfg random rest (done @ [obj1], meshes1, n1) = Inr (objs', meshes', n')"
    by (auto split: sum.splits)
  from Cons.IH[OF r] obtain news where
    n: "objs' = (done @ [obj1]) @ news" "list_all2 (stepped64 cfg random) rest news"
       "length meshes' = length meshes1" "map colorArray meshes' = map colorArray meshes1"
    by blast
  have "stepped64 cfg random obj obj1" using u by (metis fst_conv)
  then show ?case using n writeMatrix_Inr[OF w] by (intro exI[of _ "obj1 # news"]) simp
qed

lemma forEachObject64_defined:
  "\<forall>obj \<in> set objs. meshIndex obj < length meshes \<Longrightarrow>
   \<exists>r. forEachObject64 cfg random objs (done, meshes, n) = Inr r"
proof (induction objs arbitrary: "done" meshes n)
  case Nil
  then show ?case by simp
next
  case (Cons obj rest)
  obtain obj1 n1 where u: "updateObject64 cfg random (obj, n) = (obj1, n1)"
    by (cases "updateObject64 cfg random (obj, n)")
  then have mi: "meshIndex obj1 = meshIndex obj"
    using updateObject64_kept(1)[of cfg random obj n] by simp
  then obtain meshes1 where w: "writeMatrix meshes obj1 = Inr meshes1"
    using writeMatrix_defined[of obj1 meshes] Cons.prems by auto
  have "\<forall>obj \<in> set rest. meshIndex obj < length meshes1"
    using Cons.prems writeMatrix_Inr[OF w] by simp
  from Cons.IH[OF this] show ?case using u w by simp
qed

lemma animate64_Inr:
  assumes "animate64 cfg random s = Inr s'"
  shows "list_all2 (stepped64 cfg random) (allObjects s) (allObjects s')"
    and "length (instancedMeshes s') = length (instancedMeshes s)"
    and "map colorArray (instancedMeshes s') = map colorArray (instancedMeshes s)"
proof -
  from assms obtain objs meshes n where
    f: "forEachObject64 cfg random (allObjects s) ([], instancedMeshes s, randomCalls s)
          = Inr (objs, meshes, n)"
    and s': "s' = \<lparr> instancedMeshes = meshes, allObjects = objs, randomCalls = n \<rparr>"
    by (auto simp: animate64_def split: sum.splits)
  from forEachObject64_Inr[OF f] s'
  show "list_all2 (stepped64 cfg random) (allObjects s) (allObjects s')"
    and "length (instancedMeshes s') = length (instancedMeshes s)"
    and "map colorArray (instancedMeshes s') = map colorArray (instancedMeshes s)"
    by auto
qed


lemma animate64_defined:
  assumes "wellIndexed s"
  shows "\<exists>s'. animate64 cfg random s = Inr s' \<and> wellIndexed s'"
proof -
  from assms have "\<forall>obj \<in> set (allObjects s). meshIndex obj < length (instancedMeshes s)"
    by (simp add: wellIndexed_def list_all_iff)
  from forEachObject64_defined[OF this, of cfg random "[]" "randomCalls s"]
  obtain s' where a: "animate64 cfg random s = Inr s'"
    by (auto simp: animate64_def split: prod.splits)
  have "wellIndexed s'"
    unfolding wellIndexed_def list_all_iff
  proof
    fix obj' assume "obj' \<in> set (allObjects s')"
    then obtain i where i: "i < length (allObjects s')" "allObjects s' ! i = obj'"
      by (auto simp: in_set_conv_nth)
    from animate64_Inr(1)[OF a] i have "stepped64 cfg random (allObjects s ! i) obj'"
      and "i < length (allObjects s)"
      by (auto simp: list_all2_conv_all_nth)
    then have "meshIndex obj' = meshIndex (allObjects s ! i)"
      by (auto simp: updateObject64_kept)
    then show "meshIndex obj' < length (instancedMeshes s')"
      using assms \<open>i < length (allObjects s)\<close> animate64_Inr(2)[OF a]
      by (simp add: wellIndexed_def list_all_length)
  qed
  then show ?thesis using a by blast
qed

lemma frames64_defined:
  "wellIndexed s \<Longrightarrow> \<exists>s'. frames64 k cfg random s = Inr s' \<and> wellIndexed s'"
proof (induction k arbitrary: s)
  case 0
  then show ?case by simp
next
  case (Suc k)
  from animate64_defined[OF Suc.prems] obtain s1 where
    "animate64 cfg random s = Inr s1" "wellIndexed s1" by blast
  then show ?case using Suc.IH[of s1] by simp
qed

lemma animate64_nth:
  assumes "animate64 cfg random s = Inr s'" and "i < length (allObjects s)"
  shows "length (allObjects s') = length (allObjects s)"
    and "\<exists>n. allObjects s' ! i = fst (updateObject64 cfg random (allObjects s ! i, n))"
  using animate64_Inr(1)[OF assms(1)] assms(2) by (auto simp: list_all2_conv_all_nth)

lemma frames64_length:
  "frames64 k cfg random s = Inr s' \<Longrightarrow> length (allObjects s') = length (allObjects s)"
proof (induction k arbitrary: s)
  case 0
  then show ?case by simp
next
  case (Suc k)
  then obtain s1 where a: "animate64 cfg random s = Inr s1" and f: "frames64 k cfg random s1 = Inr s'"
    by (auto split: sum.splits)
  from Suc.IH[OF f] animate64_Inr(1)[OF a] show ?case by (simp add: list_all2_lengthD)
qed


lemma addRepeatedly_first: "addRepeatedly (Suc k) a v = addRepeatedly k a (fl (v + a))"
  by (induction k) simp_all

lemma frames64_kept:
  "frames64 k cfg random s = Inr s' \<Longrightarrow> i < length (allObjects s) \<Longrightarrow>
     rotationSpeedX (allObjects s' ! i) = rotationSpeedX (allObjects s ! i)
   \<and> rotationSpeedZ (allObjects s' ! i) = rotationSpeedZ (allObjects s ! i)
   \<and> rotation_y (allObjects s' ! i) = rotation_y (allObjects s ! i)
   \<and> rotation_x (allObjects s' ! i) =
       addRepeatedly k (fl (rotationSpeedX (allObjects s ! i) * ROTATION_MULTIPLIER cfg))
         (rotation_x (allObjects s ! i))
   \<and> rotation_z (allObjects s' ! i) =
       addRepeatedly k (fl (rotationSpeedZ (allObjects s ! i) * ROTATION_MULTIPLIER cfg))
         (rotation_z (allObjects s ! i))"
proof (induction k arbitrary: s)
  case 0
  then show ?case by simp
next
  case (Suc k)
  then obtain s1 where a: "animate64 cfg random s = Inr s1" and f: "frames64 k cfg random s1 = Inr s'"
    by (auto split: sum.splits)
  from animate64_nth[OF a Suc.prems(2)] obtain n where
    l: "length (allObjects s1) = length (allObjects s)" and
    o: "allObjects s1 ! i = fst (updateObject64 cfg random (allObjects s ! i, n))" by blast
  have i1: "i < length (allObjects s1)" using l Suc.prems(2) by simp
  show ?case unfolding addRepeatedly_first using Suc.IH[OF f i1]
    by (simp add: o updateObject64_kept)
qed

lemma frames64_no_recycle:
  "frames64 k cfg random s = Inr s' \<Longrightarrow> i < length (allObjects s) \<Longrightarrow>
   (\<forall>j<k. \<not> addRepeatedly (Suc j) (- FALL_SPEED cfg) (position_y (allObjects s ! i))
              < recycleThreshold64 cfg) \<Longrightarrow>
   position_y (allObjects s' ! i) =
     addRepeatedly k (- FALL_SPEED cfg) (position_y (allObjects s ! i))"
proof (induction k arbitrary: s)
  case 0
  then show ?case by simp
next
  case (Suc k)
  let ?d = "- FALL_SPEED cfg"
  from Suc.prems(1) obtain s1 where a: "animate64 cfg random s = Inr s1"
    and f: "frames64 k cfg random s1 = Inr s'"
    by (auto split: sum.splits)
  from animate64_nth[OF a Suc.prems(2)] obtain n where
    l: "length (allObjects s1) = length (allObjects s)" and
    o: "allObjects s1 ! i = fst (updateObject64 cfg random (allObjects s ! i, n))" by blast
  have i1: "i < length (allObjects s1)" using l Suc.prems(2) by simp
  have "\<not> fl (position_y (allObjects s ! i) + ?d) < recycleThreshold64 cfg"
    using Suc.prems(3)[rule_format, of 0] by simp
  then have y1: "position_y (allObjects s1 ! i) = fl (position_y (allObjects s ! i) + ?d)"
    by (simp add: o updateObject64_y)
  have "\<forall>j<k. \<not> addRepeatedly (Suc j) ?d (position_y (allObjects s1 ! i)) < recycleThreshold64 cfg"
  proof (intro allI impI)
    fix j assume "j < k"
    then have h: "\<not> addRepeatedly (Suc (Suc j)) ?d (position_y (allObjects s ! i))
        < recycleThreshold64 cfg"
      using Suc.prems(3) by blast
    have eq: "addRepeatedly (Suc (Suc j)) ?d (position_y (allObjects s ! i))
        = addRepeatedly (Suc j) ?d (fl (position_y (allObjects s ! i) + ?d))"
      by (rule addRepeatedly_first)
    from h[unfolded eq] show "\<not> addRepeatedly (Suc j) ?d (position_y (allObjects s1 ! i))
        < recycleThreshold64 cfg"
      unfolding y1 .
  qed
  from Suc.IH[OF f i1 this] have "position_y (allObjects s' ! i)
      = addRepeatedly k ?d (fl (position_y (allObjects s ! i) + ?d))"
    unfolding y1 .
  also have "\<dots> = addRepeatedly (Suc k) ?d (position_y (allObjects s ! i))"
    by (rule addRepeatedly_first[symmetric])
  finally show ?case .
qed

lemma frames64_wrap:
  "frames64 k cfg random s = Inr s' \<Longrightarrow> i < length (allObjects s) \<Longrightarrow>
   position_y (allObjects s' ! i) =
     addRepeatedly k (- FALL_SPEED cfg) (position_y (allObjects s ! i))
   \<or> (\<exists>j<k. position_y (allObjects s' ! i) =
         addRepeatedly j (- FALL_SPEED cfg) (fl (Y_OFFSET cfg + fl (Y_SPREAD cfg / 2))))"
proof (induction k arbitrary: s)
  case 0
  then show ?case by simp
next
  case (Suc k)
  let ?d = "- FALL_SPEED cfg"
  let ?top = "fl (Y_OFFSET cfg + fl (Y_SPREAD cfg / 2))"
  from Suc.prems(1) obtain s1 where a: "animate64 cfg random s = Inr s1"
    and f: "frames64 k cfg random s1 = Inr s'"
    by (auto split: sum.splits)
  from animate64_nth[OF a Suc.prems(2)] obtain n where
    l: "length (allObjects s1) = length (allObjects s)" and
    o: "allObjects s1 ! i = fst (updateObject64 cfg random (allObjects s ! i, n))" by blast
  have i1: "i < length (allObjects s1)" using l Suc.prems(2) by simp
  have y1: "position_y (allObjects s1 ! i) = ?top
          \<or> position_y (allObjects s1 ! i) = fl (position_y (allObjects s ! i) + ?d)"
    by (simp add: o updateObject64_y)
  from Suc.IH[OF f i1] consider
      (fell) "position_y (allObjects s' ! i) = addRepeatedly k ?d (position_y (allObjects s1 ! i))"
    | (wrapped) j where "j < k" "position_y (allObjects s' ! i) = addRepeatedly j ?d ?top"
    by blast
  then show ?case
  proof cases
    case fell
    from y1 show ?thesis
    proof
      assume "position_y (allObjects s1 ! i) = ?top"
      then have "position_y (allObjects s' ! i) = addRepeatedly k ?d ?top"
        using fell by simp
      then show ?thesis by blast
    next
      assume "position_y (allObjects s1 ! i) = fl (position_y (allObjects s ! i) + ?d)"
      then have "position_y (allObjects s' ! i)
          = addRepeatedly k ?d (fl (position_y (allObjects s ! i) + ?d))"
        using fell by simp
      then have "position_y (allObjects s' ! i)
          = addRepeatedly (Suc k) ?d (position_y (allObjects s ! i))"
        by (simp only: addRepeatedly_first[symmetric])
      then show ?thesis by blast
    qed
  next
    case wrapped
    then show ?thesis using less_Suc_eq by blast
  qed
qed

lemma addRepeatedly_exact:
  "(\<forall>j<k. fl (v + (real j + 1) * a) = v + (real j + 1) * a) \<Longrightarrow>
   addRepeatedly k a v = v + real k * a"
proof (induction k)
  case 0
  then show ?case by simp
next
  case (Suc k)
  then have ih: "addRepeatedly k a v = v + real k * a" by simp
  have e: "v + real k * a + a = v + (real k + 1) * a" by (simp add: algebra_simps)
  have "fl (v + (real k + 1) * a) = v + (real k + 1) * a"
    using Suc.prems by simp
  then have "fl (addRepeatedly k a v + a) = v + (real k + 1) * a"
    unfolding ih e .
  then show ?case by (simp add: algebra_simps)
qed

lemma addRepeatedly_error:
  "(\<forall>j<k. \<bar>addRepeatedly j a v + a\<bar> \<le> B) \<Longrightarrow>
   \<bar>addRepeatedly k a v - (v + real k * a)\<bar> \<le> real k * B / 2 ^ 53"
proof (induction k)
  case 0
  then show ?case by simp
next
  case (Suc k)
  define yk where "yk = addRepeatedly k a v"
  have ih: "\<bar>yk - (v + real k * a)\<bar> \<le> real k * B / 2 ^ 53"
    unfolding yk_def using Suc by simp
  have b: "\<bar>yk + a\<bar> \<le> B" unfolding yk_def using Suc.prems by simp
  have "\<bar>fl (yk + a) - (yk + a)\<bar> \<le> \<bar>yk + a\<bar> / 2 ^ 53" by (rule fl_error)
  also have "\<dots> \<le> B / 2 ^ 53" using b by (simp add: divide_right_mono)
  finally have r: "\<bar>fl (yk + a) - (yk + a)\<bar> \<le> B / 2 ^ 53" .
  have "fl (yk + a) - (v + real (Suc k) * a)
      = (fl (yk + a) - (yk + a)) + (yk - (v + real k * a))"
    by (simp add: algebra_simps)
  then have "\<bar>fl (yk + a) - (v + real (Suc k) * a)\<bar>
      \<le> \<bar>fl (yk + a) - (yk + a)\<bar> + \<bar>yk - (v + real k * a)\<bar>"
    by (simp only: abs_triangle_ineq)
  also have "\<dots> \<le> B / 2 ^ 53 + real k * B / 2 ^ 53" using r ih by linarith
  also have "\<dots> = real (Suc k) * B / 2 ^ 53" by (simp add: algebra_simps add_divide_distrib)
  finally show ?case by (simp add: yk_def)
qed

lemma animate64_scene64:
  "animate64 cfg random (scene64 (object64 x y z rx rz) n) =
     Inr (scene64 (fst (updateObject64 cfg random (object64 x y z rx rz, n)))
                  (snd (updateObject64 cfg random (object64 x y z rx rz, n))))"
  by (simp add: animate64_def scene64_def writeMatrix_def updateObject64_def recycle64_def
      fall64_def object64_def Let_def split: prod.splits)

lemmas object64_eval = updateObject64_def fall64_def recycle64_def recycleThreshold64_def
  object64_def CONFIG64_def CONFIG_def

lemma step_a1:
  "updateObject64 CONFIG64 (\<lambda>n. 1 / 4) (object64 (10) (94) (20) (1) (3), 0) =
     (object64 (10) (6558366957358285 / 2 ^ 46) (20) (2257429313219461 / 2 ^ 51) (3372070220993659 / 2 ^ 50), 0)"
  by (simp add: object64_eval fl_eval)

lemma step_a2:
  "updateObject64 CONFIG64 (\<lambda>n. 1 / 4) (object64 (10) (6558366957358285 / 2 ^ 46) (20) (2257429313219461 / 2 ^ 51) (3372070220993659 / 2 ^ 50), 0) =
     (object64 (10) (3251035981008077 / 2 ^ 45) (20) (1131529406376837 / 2 ^ 50) (1683220360729723 / 2 ^ 49), 0)"
  by (simp add: object64_eval fl_eval)

lemma step_a3:
  "updateObject64 CONFIG64 (\<lambda>n. 1 / 4) (object64 (10) (3251035981008077 / 2 ^ 45) (20) (1131529406376837 / 2 ^ 50) (1683220360729723 / 2 ^ 49), 0) =
     (object64 (10) (6445776966674023 / 2 ^ 46) (20) (2268688312287887 / 2 ^ 51) (3360811221925233 / 2 ^ 50), 0)"
  by (simp add: object64_eval fl_eval)

lemma step_a4:
  "updateObject64 CONFIG64 (\<lambda>n. 1 / 4) (object64 (10) (6445776966674023 / 2 ^ 46) (20) (2268688312287887 / 2 ^ 51) (3360811221925233 / 2 ^ 50), 0) =
     (object64 (10) (1597370492832973 / 2 ^ 44) (20) (568579452955525 / 2 ^ 49) (838795430597755 / 2 ^ 48), 0)"
  by (simp add: object64_eval fl_eval)

lemma step_a5:
  "updateObject64 CONFIG64 (\<lambda>n. 1 / 4) (object64 (10) (1597370492832973 / 2 ^ 44) (20) (568579452955525 / 2 ^ 49) (838795430597755 / 2 ^ 48), 0) =
     (object64 (10) (6333186975989761 / 2 ^ 46) (20) (2279947311356313 / 2 ^ 51) (3349552222856807 / 2 ^ 50), 0)"
  by (simp add: object64_eval fl_eval)

lemma step_b1:
  "updateObject64 CONFIG64 (\<lambda>n. 1 / 4) (object64 (10) (- 306) (20) (1) (3), 0) =
     (object64 (10) (- 5397282678426829 / 2 ^ 44) (20) (2257429313219461 / 2 ^ 51) (3372070220993659 / 2 ^ 50), 0)"
  by (simp add: object64_eval fl_eval)

lemma step_b2:
  "updateObject64 CONFIG64 (\<lambda>n. 1 / 4) (object64 (10) (- 5397282678426829 / 2 ^ 44) (20) (2257429313219461 / 2 ^ 51) (3372070220993659 / 2 ^ 50), 0) =
     (object64 (10) (- 2705678213631181 / 2 ^ 43) (20) (1131529406376837 / 2 ^ 50) (1683220360729723 / 2 ^ 49), 0)"
  by (simp add: object64_eval fl_eval)

lemma step_b3:
  "updateObject64 CONFIG64 (\<lambda>n. 1 / 4) (object64 (10) (- 2705678213631181 / 2 ^ 43) (20) (1131529406376837 / 2 ^ 50) (1683220360729723 / 2 ^ 49), 0) =
     (object64 (10) (- 5425430176097895 / 2 ^ 44) (20) (2268688312287887 / 2 ^ 51) (3360811221925233 / 2 ^ 50), 0)"
  by (simp add: object64_eval fl_eval)

lemma step_b4:
  "updateObject64 CONFIG64 (\<lambda>n. 1 / 4) (object64 (10) (- 5425430176097895 / 2 ^ 44) (20) (2268688312287887 / 2 ^ 51) (3360811221925233 / 2 ^ 50), 0) =
     (object64 (10) (- 1359875981233357 / 2 ^ 42) (20) (568579452955525 / 2 ^ 49) (838795430597755 / 2 ^ 48), 0)"
  by (simp add: object64_eval fl_eval)

lemma step_b5:
  "updateObject64 CONFIG64 (\<lambda>n. 1 / 4) (object64 (10) (- 1359875981233357 / 2 ^ 42) (20) (568579452955525 / 2 ^ 49) (838795430597755 / 2 ^ 48), 0) =
     (object64 (- 50) (300) (- 25) (2279947311356313 / 2 ^ 51) (3349552222856807 / 2 ^ 50), 2)"
  by (simp add: object64_eval fl_eval)

lemma five: "(5::nat) = Suc (Suc (Suc (Suc (Suc 0))))"
  by simp

lemma five_frames_a:
  "frames64 5 CONFIG64 (\<lambda>n. 1 / 4) (scene64 (object64 (10) (94) (20) (1) (3)) 0) =
     Inr (scene64 (object64 (10) (6333186975989761 / 2 ^ 46) (20) (2279947311356313 / 2 ^ 51) (3349552222856807 / 2 ^ 50)) 0)"
  unfolding five
  by (simp only: frames64.simps animate64_scene64 step_a1 step_a2 step_a3 step_a4 step_a5 fst_conv snd_conv sum.case)

lemma five_frames_b:
  "frames64 5 CONFIG64 (\<lambda>n. 1 / 4) (scene64 (object64 (10) (- 306) (20) (1) (3)) 0) =
     Inr (scene64 (object64 (- 50) (300) (- 25) (2279947311356313 / 2 ^ 51) (3349552222856807 / 2 ^ 50)) 2)"
  unfolding five
  by (simp only: frames64.simps animate64_scene64 step_b1 step_b2 step_b3 step_b4 step_b5 fst_conv snd_conv sum.case)


text \<open>
  C4, the claim as stated fails. With the values of config.js, an object at y = 94
  falls for 5 frames without being recycled (no random number is drawn) and is then
  at 90.00000000000001, which is neither 94 - 5 * FALL_SPEED nor the double 90 that
  this expression evaluates to. An object at y = -306 is at -310.00000000000006 after
  the fifth subtraction, below the threshold -310, and is recycled to y = 300 with new
  x and z, where initial y minus 5 * FALL_SPEED is -310 and not below the threshold.
\<close>

theorem fall_counterexample:
  "frames64 5 CONFIG64 (\<lambda>n. 1 / 4) (scene64 (object64 (10) (94) (20) (1) (3)) 0) = Inr (scene64 (object64 (10) (6333186975989761 / 2 ^ 46) (20) (2279947311356313 / 2 ^ 51) (3349552222856807 / 2 ^ 50)) 0)
   \<and> (6333186975989761 / 2 ^ 46 :: real) \<noteq> 94 - 5 * FALL_SPEED CONFIG64
   \<and> (6333186975989761 / 2 ^ 46 :: real) \<noteq> 94 - 5 * (8 / 10)
   \<and> (6333186975989761 / 2 ^ 46 :: real) \<noteq> fl (94 - fl (5 * FALL_SPEED CONFIG64))
   \<and> frames64 5 CONFIG64 (\<lambda>n. 1 / 4) (scene64 (object64 (10) (- 306) (20) (1) (3)) 0) = Inr (scene64 (object64 (- 50) (300) (- 25) (2279947311356313 / 2 ^ 51) (3349552222856807 / 2 ^ 50)) 2)
   \<and> \<not> (- 306 - 5 * (8 / 10) < Y_OFFSET CONFIG64 - Y_SPREAD CONFIG64 / 2 - 10)"
proof -
  have fs: "FALL_SPEED CONFIG64 = 3602879701896397 / 2 ^ 52"
    by (simp add: CONFIG64_def CONFIG_def fl_eval)
  have n1: "(6333186975989761 / 2 ^ 46 :: real) \<noteq> 94 - 5 * FALL_SPEED CONFIG64"
    unfolding fs by simp
  have n2: "(6333186975989761 / 2 ^ 46 :: real) \<noteq> 94 - 5 * (8 / 10)"
    by simp
  have "fl (5 * FALL_SPEED CONFIG64) = 4" unfolding fs by (simp add: fl_eval)
  moreover have "fl (94 - 4) = 90" by (simp add: fl_eval)
  ultimately have n3: "(6333186975989761 / 2 ^ 46 :: real) \<noteq> fl (94 - fl (5 * FALL_SPEED CONFIG64))"
    by simp
  have n4: "\<not> (- 306 - 5 * (8 / 10) < Y_OFFSET CONFIG64 - Y_SPREAD CONFIG64 / 2 - 10)"
    by (simp add: CONFIG64_def CONFIG_def)
  from five_frames_a n1 n2 n3 five_frames_b n4 show ?thesis by (intro conjI)
qed

text \<open>
  C4, amended. In every frame the fall step sets every object's position.y to the double
  nearest to position.y - FALL_SPEED (at most |position.y - FALL_SPEED| / 2^53 away
  from it), rotation.x to the double nearest to rotation.x plus the rounded product
  rotationSpeedX * ROTATION_MULTIPLIER, rotation.z likewise, and leaves rotation.y
  alone; the recycling that follows changes none of the rotations. Frames of a
  well-indexed scene always complete. After k frames the i-th object has rotation.y
  unchanged and rotation.x and rotation.z advanced by k rounded additions; when none
  of the k rounded subtractions takes it below the threshold, its position.y is the
  result of k rounded subtractions of FALL_SPEED from the initial y, and in general it
  is that or the result of j < k rounded subtractions from the top, for the frames
  since its last recycling. The result of k rounded additions of a to v is v + k * a
  when each intermediate sum is a double, and it is always within k * B / 2^53 of
  v + k * a when B bounds the magnitudes of the sums before rounding.
\<close>

theorem fall_and_rotation64:
  "position_y (fall64 cfg obj) = fl (position_y obj - FALL_SPEED cfg)
   \<and> \<bar>position_y (fall64 cfg obj) - (position_y obj - FALL_SPEED cfg)\<bar>
       \<le> \<bar>position_y obj - FALL_SPEED cfg\<bar> / 2 ^ 53
   \<and> rotation_x (fall64 cfg obj) =
       fl (rotation_x obj + fl (rotationSpeedX obj * ROTATION_MULTIPLIER cfg))
   \<and> rotation_z (fall64 cfg obj) =
       fl (rotation_z obj + fl (rotationSpeedZ obj * ROTATION_MULTIPLIER cfg))
   \<and> rotation_y (fall64 cfg obj) = rotation_y obj
   \<and> updateObject64 cfg random (obj, n) = recycle64 cfg random (fall64 cfg obj, n)
   \<and> position_y (fst (updateObject64 cfg random (obj, n))) =
       (if fl (position_y obj - FALL_SPEED cfg) < recycleThreshold64 cfg
        then fl (Y_OFFSET cfg + fl (Y_SPREAD cfg / 2))
        else fl (position_y obj - FALL_SPEED cfg))
   \<and> rotation_x (fst (updateObject64 cfg random (obj, n))) =
       fl (rotation_x obj + fl (rotationSpeedX obj * ROTATION_MULTIPLIER cfg))
   \<and> rotation_z (fst (updateObject64 cfg random (obj, n))) =
       fl (rotation_z obj + fl (rotationSpeedZ obj * ROTATION_MULTIPLIER cfg))
   \<and> rotation_y (fst (updateObject64 cfg random (obj, n))) = rotation_y obj
   \<and> (wellIndexed s \<longrightarrow> (\<exists>t. frames64 k cfg random s = Inr t))
   \<and> (frames64 k cfg random s = Inr s' \<and> i < length (allObjects s) \<longrightarrow>
        i < length (allObjects s')
      \<and> rotation_y (allObjects s' ! i) = rotation_y (allObjects s ! i)
      \<and> rotation_x (allObjects s' ! i) =
          addRepeatedly k (fl (rotationSpeedX (allObjects s ! i) * ROTATION_MULTIPLIER cfg))
            (rotation_x (allObjects s ! i))
      \<and> rotation_z (allObjects s' ! i) =
          addRepeatedly k (fl (rotationSpeedZ (allObjects s ! i) * ROTATION_MULTIPLIER cfg))
            (rotation_z (allObjects s ! i))
      \<and> ((\<forall>j<k. \<not> addRepeatedly (Suc j) (- FALL_SPEED cfg) (position_y (allObjects s ! i))
                    < recycleThreshold64 cfg)
          \<longrightarrow> position_y (allObjects s' ! i) =
                addRepeatedly k (- FALL_SPEED cfg) (position_y (allObjects s ! i)))
      \<and> (position_y (allObjects s' ! i) =
            addRepeatedly k (- FALL_SPEED cfg) (position_y (allObjects s ! i))
          \<or> (\<exists>j<k. position_y (allObjects s' ! i) =
                addRepeatedly j (- FALL_SPEED cfg) (fl (Y_OFFSET cfg + fl (Y_SPREAD cfg / 2))))))
   \<and> ((\<forall>j<k. fl (v + (real j + 1) * a) = v + (real j + 1) * a)
        \<longrightarrow> addRepeatedly k a v = v + real k * a)
   \<and> ((\<forall>j<k. \<bar>addRepeatedly j a v + a\<bar> \<le> B)
        \<longrightarrow> \<bar>addRepeatedly k a v - (v + real k * a)\<bar> \<le> real k * B / 2 ^ 53)"
proof -
  have one: "position_y (fall64 cfg obj) = fl (position_y obj - FALL_SPEED cfg)
   \<and> rotation_x (fall64 cfg obj) =
       fl (rotation_x obj + fl (rotationSpeedX obj * ROTATION_MULTIPLIER cfg))
   \<and> rotation_z (fall64 cfg obj) =
       fl (rotation_z obj + fl (rotationSpeedZ obj * ROTATION_MULTIPLIER cfg))
   \<and> rotation_y (fall64 cfg obj) = rotation_y obj
   \<and> updateObject64 cfg random (obj, n) = recycle64 cfg random (fall64 cfg obj, n)"
    by (simp add: fall64_def updateObject64_def)
  have err: "\<bar>position_y (fall64 cfg obj) - (position_y obj - FALL_SPEED cfg)\<bar>
       \<le> \<bar>position_y obj - FALL_SPEED cfg\<bar> / 2 ^ 53"
    using fl_error[of "position_y obj - FALL_SPEED cfg"] by (simp add: fall64_def)
  have total: "wellIndexed s \<longrightarrow> (\<exists>t. frames64 k cfg random s = Inr t)"
    using frames64_defined by blast
  have many: "i < length (allObjects s')
      \<and> rotation_y (allObjects s' ! i) = rotation_y (allObjects s ! i)
      \<and> rotation_x (allObjects s' ! i) =
          addRepeatedly k (fl (rotationSpeedX (allObjects s ! i) * ROTATION_MULTIPLIER cfg))
            (rotation_x (allObjects s ! i))
      \<and> rotation_z (allObjects s' ! i) =
          addRepeatedly k (fl (rotationSpeedZ (allObjects s ! i) * ROTATION_MULTIPLIER cfg))
            (rotation_z (allObjects s ! i))
      \<and> ((\<forall>j<k. \<not> addRepeatedly (Suc j) (- FALL_SPEED cfg) (position_y (allObjects s ! i))
                    < recycleThreshold64 cfg)
          \<longrightarrow> position_y (allObjects s' ! i) =
                addRepeatedly k (- FALL_SPEED cfg) (position_y (allObjects s ! i)))
      \<and> (position_y (allObjects s' ! i) =
            addRepeatedly k (- FALL_SPEED cfg) (position_y (allObjects s ! i))
          \<or> (\<exists>j<k. position_y (allObjects s' ! i) =
                addRepeatedly j (- FALL_SPEED cfg) (fl (Y_OFFSET cfg + fl (Y_SPREAD cfg / 2)))))"
    if f: "frames64 k cfg random s = Inr s'" and i: "i < length (allObjects s)"
  proof -
    have l: "i < length (allObjects s')" using frames64_length[OF f] i by simp
    have n: "(\<forall>j<k. \<not> addRepeatedly (Suc j) (- FALL_SPEED cfg) (position_y (allObjects s ! i))
                    < recycleThreshold64 cfg)
          \<longrightarrow> position_y (allObjects s' ! i) =
                addRepeatedly k (- FALL_SPEED cfg) (position_y (allObjects s ! i))"
      using frames64_no_recycle[OF f i] by blast
    from l frames64_kept[OF f i] n frames64_wrap[OF f i] show ?thesis by blast
  qed
  have ex: "(\<forall>j<k. fl (v + (real j + 1) * a) = v + (real j + 1) * a)
        \<longrightarrow> addRepeatedly k a v = v + real k * a"
    using addRepeatedly_exact by blast
  have er: "(\<forall>j<k. \<bar>addRepeatedly j a v + a\<bar> \<le> B)
        \<longrightarrow> \<bar>addRepeatedly k a v - (v + real k * a)\<bar> \<le> real k * B / 2 ^ 53"
    using addRepeatedly_error by blast
  from many have many': "frames64 k cfg random s = Inr s' \<and> i < length (allObjects s) \<longrightarrow>
        i < length (allObjects s')
      \<and> rotation_y (allObjects s' ! i) = rotation_y (allObjects s ! i)
      \<and> rotation_x (allObjects s' ! i) =
          addRepeatedly k (fl (rotationSpeedX (allObjects s ! i) * ROTATION_MULTIPLIER cfg))
            (rotation_x (allObjects s ! i))
      \<and> rotation_z (allObjects s' ! i) =
          addRepeatedly k (fl (rotationSpeedZ (allObjects s ! i) * ROTATION_MULTIPLIER cfg))
            (rotation_z (allObjects s ! i))
      \<and> ((\<forall>j<k. \<not> addRepeatedly (Suc j) (- FALL_SPEED cfg) (position_y (allObjects s ! i))
                    < recycleThreshold64 cfg)
          \<longrightarrow> position_y (allObjects s' ! i) =
                addRepeatedly k (- FALL_SPEED cfg) (position_y (allObjects s ! i)))
      \<and> (position_y (allObjects s' ! i) =
            addRepeatedly k (- FALL_SPEED cfg) (position_y (allObjects s ! i))
          \<or> (\<exists>j<k. position_y (allObjects s' ! i) =
                addRepeatedly j (- FALL_SPEED cfg) (fl (Y_OFFSET cfg + fl (Y_SPREAD cfg / 2)))))"
    by blast
  from one have o1: "position_y (fall64 cfg obj) = fl (position_y obj - FALL_SPEED cfg)"
    and o2: "rotation_x (fall64 cfg obj) =
       fl (rotation_x obj + fl (rotationSpeedX obj * ROTATION_MULTIPLIER cfg))"
    and o3: "rotation_z (fall64 cfg obj) =
       fl (rotation_z obj + fl (rotationSpeedZ obj * ROTATION_MULTIPLIER cfg))"
    and o4: "rotation_y (fall64 cfg obj) = rotation_y obj"
    and o5: "updateObject64 cfg random (obj, n) = recycle64 cfg random (fall64 cfg obj, n)"
    by blast+
  from o1 err o2 o3 o4 o5 updateObject64_y[of cfg random obj n]
    updateObject64_kept(7)[of cfg random obj n] updateObject64_kept(8)[of cfg random obj n]
    updateObject64_kept(6)[of cfg random obj n] total many' ex er
  show ?thesis by (intro conjI)
qed

theorem fall_and_rotation64_witness:
  "(\<exists>t. frames64 2 CONFIG64 (\<lambda>n. 1 / 4) (scene64 (object64 (10) (94) (20) (1) (3)) 0) = Inr t
      \<and> position_y (allObjects t ! 0) = 3251035981008077 / 2 ^ 45
      \<and> rotation_y (allObjects t ! 0) = 2)
   \<and> addRepeatedly 2 (- 1 / 2) 94 = 93
   \<and> \<bar>addRepeatedly 2 (- FALL_SPEED CONFIG64) 94 - (94 + 2 * (- FALL_SPEED CONFIG64))\<bar>
       \<le> 2 * 94 / 2 ^ 53"
proof -
  let ?r = "\<lambda>n::nat. 1 / 4 :: real"
  let ?s = "scene64 (object64 (10) (94) (20) (1) (3)) 0"
  have fs: "FALL_SPEED CONFIG64 = 3602879701896397 / 2 ^ 52"
    by (simp add: CONFIG64_def CONFIG_def fl_eval)
  have th: "recycleThreshold64 CONFIG64 = - 310"
    by (simp add: recycleThreshold64_def CONFIG64_def CONFIG_def fl_eval)
  have a1: "addRepeatedly (Suc 0) (- FALL_SPEED CONFIG64) 94 = 6558366957358285 / 2 ^ 46"
    unfolding fs by (simp add: fl_eval)
  have a2: "addRepeatedly (Suc (Suc 0)) (- FALL_SPEED CONFIG64) 94 = 3251035981008077 / 2 ^ 45"
    unfolding fs by (simp add: fl_eval)
  have w: "wellIndexed ?s"
    by (simp add: wellIndexed_def scene64_def object64_def)
  have i: "0 < length (allObjects ?s)" by (simp add: scene64_def)
  have o: "position_y (allObjects ?s ! 0) = 94" "rotation_y (allObjects ?s ! 0) = 2"
    by (simp_all add: scene64_def object64_def)
  have stay: "\<forall>j<2. \<not> addRepeatedly (Suc j) (- FALL_SPEED CONFIG64)
      (position_y (allObjects ?s ! 0)) < recycleThreshold64 CONFIG64"
    unfolding o th using a1 a2 by (simp add: less_Suc_eq numeral_2_eq_2 del: addRepeatedly.simps)
  note t = fall_and_rotation64 [of CONFIG64 _ ?r _ ?s 2]
  from t w obtain u where u: "frames64 2 CONFIG64 ?r ?s = Inr u" by blast
  from fall_and_rotation64 [of CONFIG64 _ ?r _ ?s 2 u 0] u i stay
  have "position_y (allObjects u ! 0)
        = addRepeatedly 2 (- FALL_SPEED CONFIG64) (position_y (allObjects ?s ! 0))
      \<and> rotation_y (allObjects u ! 0) = rotation_y (allObjects ?s ! 0)"
    by blast
  then have "position_y (allObjects u ! 0) = 3251035981008077 / 2 ^ 45
      \<and> rotation_y (allObjects u ! 0) = 2"
    unfolding o using a2 by (simp add: numeral_2_eq_2 del: addRepeatedly.simps)
  with u have first: "\<exists>t. frames64 2 CONFIG64 ?r ?s = Inr t
      \<and> position_y (allObjects t ! 0) = 3251035981008077 / 2 ^ 45
      \<and> rotation_y (allObjects t ! 0) = 2"
    by blast
  have e: "\<forall>j<2. fl (94 + (real j + 1) * (- 1 / 2)) = 94 + (real j + 1) * (- 1 / 2)"
    by (simp add: less_Suc_eq numeral_2_eq_2 fl_eval)
  from fall_and_rotation64 [where k = 2 and v = 94 and a = "- 1 / 2"] e
  have "addRepeatedly 2 (- 1 / 2) 94 = 94 + real 2 * (- 1 / 2)" by blast
  then have second: "addRepeatedly 2 (- 1 / 2) 94 = 93" by simp
  have b: "\<forall>j<2. \<bar>addRepeatedly j (- FALL_SPEED CONFIG64) 94 + (- FALL_SPEED CONFIG64)\<bar> \<le> 94"
  proof (intro allI impI)
    fix j :: nat
    assume "j < 2"
    then have j: "j = 0 \<or> j = Suc 0" by arith
    have b0: "\<bar>addRepeatedly 0 (- FALL_SPEED CONFIG64) 94 + (- FALL_SPEED CONFIG64)\<bar> \<le> 94"
      unfolding fs by simp
    have b1: "\<bar>addRepeatedly (Suc 0) (- FALL_SPEED CONFIG64) 94 + (- FALL_SPEED CONFIG64)\<bar> \<le> 94"
      by (simp only: a1) (simp add: fs)
    from j show "\<bar>addRepeatedly j (- FALL_SPEED CONFIG64) 94 + (- FALL_SPEED CONFIG64)\<bar> \<le> 94"
      by (elim disjE) (simp_all only: b0 b1)
  qed
  from fall_and_rotation64 [where k = 2 and v = 94 and a = "- FALL_SPEED CONFIG64" and B = 94] b
  have "\<bar>addRepeatedly 2 (- FALL_SPEED CONFIG64) 94 - (94 + real 2 * (- FALL_SPEED CONFIG64))\<bar>
      \<le> real 2 * 94 / 2 ^ 53"
    by blast
  then have third: "\<bar>addRepeatedly 2 (- FALL_SPEED CONFIG64) 94 - (94 + 2 * (- FALL_SPEED CONFIG64))\<bar>
      \<le> 2 * 94 / 2 ^ 53"
    by simp
  from first second third show ?thesis by (intro conjI)
qed









subsection \<open>Geometry merging and normals\<close>

lemma mergeGeometries_Inr:
  "mergeGeometries lib geometries = Inr merged \<Longrightarrow>
     position merged = Some (pushAll position geometries)
   \<and> normal merged =
       (if pushAll normal geometries \<noteq> [] then Some (pushAll normal geometries)
        else Some (vertexNormals lib None (pushAll position geometries)))
   \<and> uv merged = (if pushAll uv geometries \<noteq> [] then Some (pushAll uv geometries) else None)
   \<and> index merged = None
   \<and> boundingSphere merged = Some (boundingSphereOf lib (pushAll position geometries))"
  by (auto simp: mergeGeometries_def Let_def computeVertexNormals_def computeBoundingSphere_def
      BufferGeometry_def split: if_splits)

lemma mergeGeometries_defined:
  "(\<exists>merged. mergeGeometries lib geometries = Inr merged) =
   (\<not> (storage_fails lib (length (pushAll position geometries))
       \<or> (pushAll normal geometries \<noteq> []
          \<and> storage_fails lib (length (pushAll normal geometries)))
       \<or> (pushAll uv geometries \<noteq> [] \<and> storage_fails lib (length (pushAll uv geometries)))))"
  by (simp add: mergeGeometries_def Let_def)

lemma vertices_length: "length (vertices ps) = length ps div 3"
  by (induction ps rule: vertices.induct) simp_all

lemma fl_ge: "0 \<le> v \<Longrightarrow> v * (1 - 1 / 2 ^ 53) \<le> fl v"
proof -
  assume v: "0 \<le> v"
  have "v - fl v \<le> \<bar>fl v - v\<bar>" by simp
  also have "\<dots> \<le> \<bar>v\<bar> / 2 ^ 53" by (rule fl_error)
  finally have "v - fl v \<le> v / 2 ^ 53" using v by simp
  then show ?thesis by (simp add: algebra_simps)
qed

lemma fl_nonneg: "0 \<le> v \<Longrightarrow> 0 \<le> fl v"
proof -
  assume v: "0 \<le> v"
  have "0 \<le> v * (1 - 1 / 2 ^ 53)" using v by (intro mult_nonneg_nonneg) simp_all
  with fl_ge[OF v] show ?thesis by linarith
qed

lemma fl_sq_ge: "t\<^sup>2 * (1 - 1 / 2 ^ 53)\<^sup>2 \<le> (fl t)\<^sup>2"
proof -
  define q :: real where "q = 1 - 1 / 2 ^ 53"
  have q: "0 \<le> q" by (simp add: q_def)
  have "\<bar>t\<bar> - \<bar>fl t\<bar> \<le> \<bar>fl t - t\<bar>" by simp
  also have "\<dots> \<le> \<bar>t\<bar> / 2 ^ 53" by (rule fl_error)
  finally have a: "\<bar>t\<bar> * q \<le> \<bar>fl t\<bar>" by (simp add: algebra_simps q_def)
  have "0 \<le> \<bar>t\<bar> * q" using q by (intro mult_nonneg_nonneg) simp_all
  with a have "(\<bar>t\<bar> * q)\<^sup>2 \<le> \<bar>fl t\<bar>\<^sup>2" by (rule power_mono)
  then have "t\<^sup>2 * q\<^sup>2 \<le> (fl t)\<^sup>2" by (simp add: power_mult_distrib)
  then show ?thesis unfolding q_def .
qed

lemma fl_square_ge: "t\<^sup>2 * (1 - 1 / 2 ^ 53) ^ 3 \<le> fl (fl t * fl t)"
proof -
  define q :: real where "q = 1 - 1 / 2 ^ 53"
  have q: "0 \<le> q" by (simp add: q_def)
  have "t\<^sup>2 * q ^ 3 = (t\<^sup>2 * q\<^sup>2) * q" by (simp add: power3_eq_cube power2_eq_square)
  also have "\<dots> \<le> (fl t)\<^sup>2 * q"
    using fl_sq_ge[of t] q unfolding q_def by (intro mult_right_mono) simp_all
  also have "\<dots> \<le> fl ((fl t)\<^sup>2)" unfolding q_def by (rule fl_ge) simp
  finally show ?thesis by (simp add: q_def power2_eq_square)
qed

lemma distanceToSquared_ge:
  "((ax - bx)\<^sup>2 + (ay - by)\<^sup>2 + (az - bz)\<^sup>2) * (1 - 1 / 2 ^ 53) ^ 5
     \<le> distanceToSquared (ax, ay, az) (bx, by, bz)"
proof -
  define q :: real where "q = 1 - 1 / 2 ^ 53"
  have q: "0 \<le> q" "q \<le> 1" by (simp_all add: q_def)
  define X where "X = fl (fl (ax - bx) * fl (ax - bx))"
  define Y where "Y = fl (fl (ay - by) * fl (ay - by))"
  define Z where "Z = fl (fl (az - bz) * fl (az - bz))"
  have X: "(ax - bx)\<^sup>2 * q ^ 3 \<le> X" unfolding X_def q_def by (rule fl_square_ge)
  have Y: "(ay - by)\<^sup>2 * q ^ 3 \<le> Y" unfolding Y_def q_def by (rule fl_square_ge)
  have Z: "(az - bz)\<^sup>2 * q ^ 3 \<le> Z" unfolding Z_def q_def by (rule fl_square_ge)
  have X0: "0 \<le> X" unfolding X_def by (rule fl_nonneg) simp
  have Y0: "0 \<le> Y" unfolding Y_def by (rule fl_nonneg) simp
  have Z0: "0 \<le> Z" unfolding Z_def by (rule fl_nonneg) simp
  have S1: "(X + Y) * q \<le> fl (X + Y)" unfolding q_def using X0 Y0 by (intro fl_ge) simp
  have S10: "0 \<le> fl (X + Y)" using X0 Y0 by (intro fl_nonneg) simp
  have S: "(fl (X + Y) + Z) * q \<le> fl (fl (X + Y) + Z)"
    unfolding q_def using S10 Z0 by (intro fl_ge) simp
  have Zq: "Z * q \<le> Z" using Z0 q by (simp add: mult_left_le)
  have "((ax - bx)\<^sup>2 + (ay - by)\<^sup>2 + (az - bz)\<^sup>2) * q ^ 5
      = (((ax - bx)\<^sup>2 * q ^ 3 + (ay - by)\<^sup>2 * q ^ 3 + (az - bz)\<^sup>2 * q ^ 3) * q) * q"
    by (simp add: algebra_simps power3_eq_cube eval_nat_numeral)
  also have "\<dots> \<le> ((X + Y + Z) * q) * q"
    using X Y Z q by (intro mult_right_mono) simp_all
  also have "\<dots> = ((X + Y) * q + Z * q) * q" by (simp add: algebra_simps)
  also have "\<dots> \<le> (fl (X + Y) + Z) * q"
    using S1 Zq q by (intro mult_right_mono) simp_all
  also have "\<dots> \<le> fl (fl (X + Y) + Z)" by (rule S)
  finally show ?thesis
    by (simp add: distanceToSquared_def Let_def X_def Y_def Z_def q_def)
qed

lemma fold_max_ge: "(m::real) \<le> fold (\<lambda>v m. max m (f v)) vs m"
proof (induction vs arbitrary: m)
  case Nil
  show ?case by simp
next
  case (Cons v vs)
  have "m \<le> max m (f v)" by simp
  also have "\<dots> \<le> fold (\<lambda>v m. max m (f v)) vs (max m (f v))" by (rule Cons.IH)
  finally show ?case by simp
qed

lemma fold_max_member: "v \<in> set vs \<Longrightarrow> (f v :: real) \<le> fold (\<lambda>v m. max m (f v)) vs m"
proof (induction vs arbitrary: m)
  case Nil
  then show ?case by simp
next
  case (Cons w vs)
  show ?case
  proof (cases "v = w")
    case True
    have "f v \<le> max m (f w)" using True by simp
    also have "\<dots> \<le> fold (\<lambda>v m. max m (f v)) vs (max m (f w))" by (rule fold_max_ge)
    finally show ?thesis by simp
  next
    case False
    with Cons.prems have "v \<in> set vs" by simp
    from Cons.IH[OF this] show ?thesis by simp
  qed
qed

lemma maxRadiusSq_nonneg: "0 \<le> maxRadiusSq c vs"
  unfolding maxRadiusSq_def by (rule fold_max_ge)

lemma maxRadiusSq_member: "v \<in> set vs \<Longrightarrow> distanceToSquared c v \<le> maxRadiusSq c vs"
  unfolding maxRadiusSq_def by (rule fold_max_member)

lemma Math_sqrt_ge:
  assumes "0 \<le> m"
  shows "0 \<le> Math_sqrt m" and "m * (1 - 1 / 2 ^ 53)\<^sup>2 \<le> (Math_sqrt m)\<^sup>2"
proof -
  show "0 \<le> Math_sqrt m" unfolding Math_sqrt_def by (rule fl_nonneg) (simp add: assms)
  have "m * (1 - 1 / 2 ^ 53)\<^sup>2 = (sqrt m)\<^sup>2 * (1 - 1 / 2 ^ 53)\<^sup>2" using assms by simp
  also have "\<dots> \<le> (fl (sqrt m))\<^sup>2" by (rule fl_sq_ge)
  finally show "m * (1 - 1 / 2 ^ 53)\<^sup>2 \<le> (Math_sqrt m)\<^sup>2" by (simp add: Math_sqrt_def)
qed

lemma rounding_slack: "1 \<le> (1 - 1 / 2 ^ 53) ^ 7 * (1 + 1 / 2 ^ 50 :: real)"
  by (simp add: power_divide field_simps)

lemma boundingSphere64_vertex:
  assumes "(a, b, c) \<in> set (vertices ps)" and "center (boundingSphere64 ps) = (cx, cy, cz)"
  shows "(a - cx)\<^sup>2 + (b - cy)\<^sup>2 + (c - cz)\<^sup>2 \<le> (radius (boundingSphere64 ps))\<^sup>2 * (1 + 1 / 2 ^ 50)"
proof -
  define q :: real where "q = 1 - 1 / 2 ^ 53"
  define D where "D = (a - cx)\<^sup>2 + (b - cy)\<^sup>2 + (c - cz)\<^sup>2"
  define m where "m = maxRadiusSq (cx, cy, cz) (vertices ps)"
  define r where "r = radius (boundingSphere64 ps)"
  have q: "0 \<le> q" by (simp add: q_def)
  have D0: "0 \<le> D" by (simp add: D_def)
  have c: "getCenter (vertices ps) = (cx, cy, cz)"
    using assms(2) by (simp add: boundingSphere64_def Let_def)
  have r: "r = Math_sqrt m"
    by (simp add: r_def m_def boundingSphere64_def Let_def c)
  have m0: "0 \<le> m" unfolding m_def by (rule maxRadiusSq_nonneg)
  have "D = (cx - a)\<^sup>2 + (cy - b)\<^sup>2 + (cz - c)\<^sup>2" by (simp add: D_def power2_commute)
  then have "D * q ^ 5 \<le> distanceToSquared (cx, cy, cz) (a, b, c)"
    using distanceToSquared_ge[of cx a cy b cz c] by (simp add: q_def)
  also have "\<dots> \<le> m" unfolding m_def using assms(1) by (rule maxRadiusSq_member)
  finally have "(D * q ^ 5) * q\<^sup>2 \<le> m * q\<^sup>2" by (intro mult_right_mono) simp_all
  also have "\<dots> \<le> r\<^sup>2" unfolding r q_def by (rule Math_sqrt_ge(2)[OF m0])
  finally have "D * q ^ 7 \<le> r\<^sup>2" by (simp add: eval_nat_numeral algebra_simps)
  then have "(D * q ^ 7) * (1 + 1 / 2 ^ 50) \<le> r\<^sup>2 * (1 + 1 / 2 ^ 50)"
    by (intro mult_right_mono) simp_all
  moreover have "D * 1 \<le> D * (q ^ 7 * (1 + 1 / 2 ^ 50))"
    using D0 rounding_slack unfolding q_def by (intro mult_left_mono)
  ultimately have "D \<le> r\<^sup>2 * (1 + 1 / 2 ^ 50)" by (simp add: algebra_simps)
  then show ?thesis by (simp add: D_def r_def)
qed

lemma boundingSphere64_radius: "0 \<le> radius (boundingSphere64 ps)"
  by (simp add: boundingSphere64_def Let_def Math_sqrt_ge(1) maxRadiusSq_nonneg)

lemma boundingSphere64_encloses: "enclosesWithin (1 / 2 ^ 50) (boundingSphere64 ps) ps"
proof -
  obtain cx cy cz where c: "center (boundingSphere64 ps) = (cx, cy, cz)"
    by (cases "center (boundingSphere64 ps)") auto
  show ?thesis
    unfolding enclosesWithin_def list_all_iff c
    using boundingSphere64_vertex[OF _ c] boundingSphere64_radius[of ps] by auto
qed

lemma Math_sqrt_example: "Math_sqrt (3 / 2) = 2757880273211543 / 2 ^ 51"
proof -
  define s :: real where "s = sqrt (3 / 2)"
  have lo: "5515760546423086 / 2 ^ 52 \<le> s"
    unfolding s_def by (rule real_le_rsqrt) (simp add: power_divide)
  have hi: "s < 11031521092846173 / 2 ^ 53"
    unfolding s_def by (rule real_less_lsqrt) (simp_all add: power_divide)
  have s1: "1 \<le> s" using lo by simp
  have s2: "s < 2" using hi by simp
  have f1: "\<lfloor>\<bar>s\<bar>\<rfloor> = 1" using s1 s2 by (simp add: floor_eq_iff)
  have ex: "exponent s = 0" unfolding exponent_def using s1 f1 by (simp add: compute_bitlen)
  have f2: "\<lfloor>s * 2 ^ 52\<rfloor> = 5515760546423086"
    using lo hi by (simp add: floor_eq_iff)
  have d: "s * 2 ^ 52 - of_int (5515760546423086 :: int) < 1 / 2" using hi by simp
  have re: "roundEven (s * 2 ^ 52) = 5515760546423086"
    unfolding roundEven_def Let_def f2 using d by simp
  have u: "pow2 (0 - 52) = 1 / 2 ^ 52" by (simp add: pow2_def)
  have "fl s = of_int (roundEven (s / (1 / 2 ^ 52))) * (1 / 2 ^ 52)"
    unfolding fl_def ex Let_def u using s1 by simp
  also have "s / (1 / 2 ^ 52) = s * 2 ^ 52" by simp
  finally have "fl s = of_int 5515760546423086 * (1 / 2 ^ 52)" unfolding re .
  then show ?thesis by (simp add: Math_sqrt_def s_def)
qed

lemma sample_center:
  "getCenter [(0, 0, 0), (1, 0, 0), (0, 1, 0), (0, 0, 2), (1, 0, 2), (1, 1, 2), (0, 1, 2)]
     = (1 / 2, 1 / 2, 1)"
  by (simp add: getCenter_def minimum_def maximum_def fl_eval)

lemma sample_distances:
  "distanceToSquared (1 / 2, 1 / 2, 1) (0, 0, 0) = 3 / 2"
  "distanceToSquared (1 / 2, 1 / 2, 1) (1, 0, 0) = 3 / 2"
  "distanceToSquared (1 / 2, 1 / 2, 1) (0, 1, 0) = 3 / 2"
  "distanceToSquared (1 / 2, 1 / 2, 1) (0, 0, 2) = 3 / 2"
  "distanceToSquared (1 / 2, 1 / 2, 1) (1, 0, 2) = 3 / 2"
  "distanceToSquared (1 / 2, 1 / 2, 1) (1, 1, 2) = 3 / 2"
  "distanceToSquared (1 / 2, 1 / 2, 1) (0, 1, 2) = 3 / 2"
  "distanceToSquared (0, 0, 0) (1 / 2, 1 / 2, 1) = 3 / 2"
  by (simp_all add: distanceToSquared_def fl_eval)

lemma sample_maxRadiusSq:
  "maxRadiusSq (1 / 2, 1 / 2, 1)
     [(0, 0, 0), (1, 0, 0), (0, 1, 0), (0, 0, 2), (1, 0, 2), (1, 1, 2), (0, 1, 2)] = 3 / 2"
  by (simp add: maxRadiusSq_def sample_distances)

lemma sample_sphere:
  "boundingSphere64 [0, 0, 0, 1, 0, 0, 0, 1, 0, 0, 0, 2, 1, 0, 2, 1, 1, 2, 0, 1, 2]
     = \<lparr>center = (1 / 2, 1 / 2, 1), radius = 2757880273211543 / 2 ^ 51\<rparr>"
  by (simp only: boundingSphere64_def Let_def vertices.simps sample_center sample_maxRadiusSq
      Math_sqrt_example)

lemma sample_radius: "fl (2757880273211543 / 2 ^ 51 * (2757880273211543 / 2 ^ 51)) = 6755399441055743 / 2 ^ 52"
  by (simp add: fl_eval)

text \<open>
  C7, the claim as stated fails. Merging the sample triangle and quadrilateral gives 7
  vertices and the bounding sphere that the library computes from them: centre
  (1/2, 1/2, 1) and radius 1.2247448713915890, the double nearest to the square root
  of 3/2 and smaller than it. Every one of the 7 positions is at squared distance 3/2
  from the centre, so the sphere does not enclose them: the vertex (0, 0, 0) is outside
  it, in exact arithmetic and by the library's own \<open>containsPoint\<close>.
\<close>

theorem mergeGeometries_sphere_counterexample:
  "\<exists>m. mergeGeometries sampleThree [triangle, quad] = Inr m
     \<and> position m = Some [0, 0, 0, 1, 0, 0, 0, 1, 0, 0, 0, 2, 1, 0, 2, 1, 1, 2, 0, 1, 2]
     \<and> vertexCount m = 7
     \<and> boundingSphere m = Some \<lparr>center = (1 / 2, 1 / 2, 1), radius = 2757880273211543 / 2 ^ 51\<rparr>
     \<and> (2757880273211543 / 2 ^ 51 :: real)\<^sup>2 < 3 / 2
     \<and> \<not> inside \<lparr>center = (1 / 2, 1 / 2, 1), radius = 2757880273211543 / 2 ^ 51\<rparr> (0, 0, 0)
     \<and> \<not> encloses \<lparr>center = (1 / 2, 1 / 2, 1), radius = 2757880273211543 / 2 ^ 51\<rparr> [0, 0, 0, 1, 0, 0, 0, 1, 0, 0, 0, 2, 1, 0, 2, 1, 1, 2, 0, 1, 2]
     \<and> \<not> containsPoint \<lparr>center = (1 / 2, 1 / 2, 1), radius = 2757880273211543 / 2 ^ 51\<rparr> (0, 0, 0)"
proof -
  have m: "mergeGeometries sampleThree [triangle, quad] =
      Inr \<lparr> index = None, position = Some [0, 0, 0, 1, 0, 0, 0, 1, 0, 0, 0, 2, 1, 0, 2, 1, 1, 2, 0, 1, 2],
            normal = Some [0, 0, 1, 0, 0, 1, 0, 0, 1, 0, 0, - 1, 0, 0, - 1, 0, 0, - 1, 0, 0, - 1],
            uv = Some [0, 0, 1, 0, 0, 1, 0, 0, 1, 0, 1, 1, 0, 1],
            boundingSphere = Some (boundingSphere64 [0, 0, 0, 1, 0, 0, 0, 1, 0, 0, 0, 2, 1, 0, 2, 1, 1, 2, 0, 1, 2]) \<rparr>"
    by (simp add: mergeGeometries_def pushAll_def Let_def triangle_def quad_def sampleThree_def
        computeBoundingSphere_def BufferGeometry_def)
  have r: "(2757880273211543 / 2 ^ 51 :: real)\<^sup>2 < 3 / 2"
    by (simp add: power_divide)
  have i: "\<not> inside \<lparr>center = (1 / 2, 1 / 2, 1), radius = 2757880273211543 / 2 ^ 51\<rparr> (0, 0, 0)"
    by (simp add: inside_def power_divide)
  have e: "\<not> encloses \<lparr>center = (1 / 2, 1 / 2, 1), radius = 2757880273211543 / 2 ^ 51\<rparr> [0, 0, 0, 1, 0, 0, 0, 1, 0, 0, 0, 2, 1, 0, 2, 1, 1, 2, 0, 1, 2]"
    using i by (simp add: encloses_def)
  have c: "\<not> containsPoint \<lparr>center = (1 / 2, 1 / 2, 1), radius = 2757880273211543 / 2 ^ 51\<rparr> (0, 0, 0)"
    unfolding containsPoint_def sphere.select_convs sample_distances sample_radius by simp
  show ?thesis
    unfolding m sample_sphere using r i e c by (simp add: vertexCount_def)
qed

text \<open>
  C7, amended. For every list of input geometries, a merge that returns has as its
  position array the inputs' position arrays concatenated in input order, unchanged,
  and as its UV array the concatenation of the UV arrays that are present (no UV
  attribute when there is none or all are empty); its vertex count is a third of the
  length of that position array and its bounding sphere is the one the library
  computes from it. Merging two geometries of 3 and 4 vertices, each with position,
  normal and uv, gives a geometry of exactly 7 vertices whose three arrays are the
  inputs' arrays concatenated in order, with the bounding sphere computed from all 7
  positions. With the library's double-precision computation that sphere has the
  centre of the positions' bounding box as its centre and the rounded square root of
  the largest rounded squared distance as its radius, and it encloses the 7 positions
  up to rounding: the squared distance of each position from the centre is at most
  the squared radius times 1 + 2^-50. The merge returns whenever the engine provides
  the storage.
\<close>

theorem mergeGeometries_concat:
  "(mergeGeometries lib geometries = Inr merged \<longrightarrow>
       position merged
         = Some (concat (map (\<lambda>geom. case position geom of None \<Rightarrow> [] | Some a \<Rightarrow> a) geometries))
     \<and> uv merged
         = (if list_ex (\<lambda>geom. case uv geom of None \<Rightarrow> False | Some a \<Rightarrow> a \<noteq> []) geometries
            then Some (concat (map (\<lambda>geom. case uv geom of None \<Rightarrow> [] | Some a \<Rightarrow> a) geometries))
            else None)
     \<and> vertexCount merged
         = length (concat (map (\<lambda>geom. case position geom of None \<Rightarrow> [] | Some a \<Rightarrow> a) geometries)) div 3
     \<and> boundingSphere merged
         = Some (boundingSphereOf lib
             (concat (map (\<lambda>geom. case position geom of None \<Rightarrow> [] | Some a \<Rightarrow> a) geometries))))
   \<and> (position g1 = Some p1 \<and> normal g1 = Some n1 \<and> uv g1 = Some u1
      \<and> position g2 = Some p2 \<and> normal g2 = Some n2 \<and> uv g2 = Some u2
      \<and> length p1 = 9 \<and> length n1 = 9 \<and> length u1 = 6
      \<and> length p2 = 12 \<and> length n2 = 12 \<and> length u2 = 8
      \<and> mergeGeometries lib [g1, g2] = Inr both
      \<longrightarrow> position both = Some (p1 @ p2)
        \<and> normal both = Some (n1 @ n2)
        \<and> uv both = Some (u1 @ u2)
        \<and> vertexCount both = 7
        \<and> length (vertices (p1 @ p2)) = 7
        \<and> boundingSphere both = Some (boundingSphereOf lib (p1 @ p2))
        \<and> (boundingSphereOf lib = boundingSphere64
            \<longrightarrow> (\<exists>sph. boundingSphere both = Some sph
                  \<and> center sph = getCenter (vertices (p1 @ p2))
                  \<and> radius sph = Math_sqrt (maxRadiusSq (center sph) (vertices (p1 @ p2)))
                  \<and> enclosesWithin (1 / 2 ^ 50) sph (p1 @ p2))))
   \<and> ((\<forall>n. \<not> storage_fails lib n) \<longrightarrow> (\<exists>m. mergeGeometries lib geometries = Inr m))"
proof -
  have uvs: "(pushAll uv geometries \<noteq> []) =
      list_ex (\<lambda>geom. case uv geom of None \<Rightarrow> False | Some a \<Rightarrow> a \<noteq> []) geometries"
    by (induction geometries) (auto simp: pushAll_def split: option.splits)
  have gen: "position merged = Some (pushAll position geometries)
     \<and> uv merged
         = (if list_ex (\<lambda>geom. case uv geom of None \<Rightarrow> False | Some a \<Rightarrow> a \<noteq> []) geometries
            then Some (pushAll uv geometries) else None)
     \<and> vertexCount merged = length (pushAll position geometries) div 3
     \<and> boundingSphere merged = Some (boundingSphereOf lib (pushAll position geometries))"
    if "mergeGeometries lib geometries = Inr merged"
    using mergeGeometries_Inr[OF that] uvs by (simp add: vertexCount_def)
  have sph: "center (boundingSphere64 (p1 @ p2)) = getCenter (vertices (p1 @ p2))
      \<and> radius (boundingSphere64 (p1 @ p2))
          = Math_sqrt (maxRadiusSq (center (boundingSphere64 (p1 @ p2))) (vertices (p1 @ p2)))
      \<and> enclosesWithin (1 / 2 ^ 50) (boundingSphere64 (p1 @ p2)) (p1 @ p2)"
    using boundingSphere64_encloses[of "p1 @ p2"] by (simp add: boundingSphere64_def Let_def)
  have two: "position both = Some (p1 @ p2)
        \<and> normal both = Some (n1 @ n2)
        \<and> uv both = Some (u1 @ u2)
        \<and> vertexCount both = 7
        \<and> length (vertices (p1 @ p2)) = 7
        \<and> boundingSphere both = Some (boundingSphereOf lib (p1 @ p2))
        \<and> (boundingSphereOf lib = boundingSphere64
            \<longrightarrow> (\<exists>sph. boundingSphere both = Some sph
                  \<and> center sph = getCenter (vertices (p1 @ p2))
                  \<and> radius sph = Math_sqrt (maxRadiusSq (center sph) (vertices (p1 @ p2)))
                  \<and> enclosesWithin (1 / 2 ^ 50) sph (p1 @ p2)))"
    if "position g1 = Some p1" "normal g1 = Some n1" "uv g1 = Some u1"
       "position g2 = Some p2" "normal g2 = Some n2" "uv g2 = Some u2"
       "length p1 = 9" "length n1 = 9" "length u1 = 6"
       "length p2 = 12" "length n2 = 12" "length u2 = 8"
       "mergeGeometries lib [g1, g2] = Inr both"
  proof -
    have n: "n1 @ n2 \<noteq> []" and u: "u1 @ u2 \<noteq> []" using that by auto
    have "pushAll position [g1, g2] = p1 @ p2" "pushAll normal [g1, g2] = n1 @ n2"
      "pushAll uv [g1, g2] = u1 @ u2"
      using that by (simp_all add: pushAll_def)
    with mergeGeometries_Inr[OF that(13)] n u that(7,10)
    have base: "position both = Some (p1 @ p2) \<and> normal both = Some (n1 @ n2)
        \<and> uv both = Some (u1 @ u2) \<and> vertexCount both = 7
        \<and> length (vertices (p1 @ p2)) = 7
        \<and> boundingSphere both = Some (boundingSphereOf lib (p1 @ p2))"
      by (simp add: vertexCount_def vertices_length)
    with sph show ?thesis by simp
  qed
  have tot: "(\<forall>n. \<not> storage_fails lib n) \<longrightarrow> (\<exists>m. mergeGeometries lib geometries = Inr m)"
    by (simp add: mergeGeometries_defined)
  show ?thesis
    using gen two tot unfolding pushAll_def by blast
qed

theorem mergeGeometries_concat_witness:
  "\<exists>m. mergeGeometries sampleThree [triangle, quad] = Inr m
     \<and> position m = Some ([0, 0, 0, 1, 0, 0, 0, 1, 0] @ [0, 0, 2, 1, 0, 2, 1, 1, 2, 0, 1, 2])
     \<and> uv m = Some ([0, 0, 1, 0, 0, 1] @ [0, 0, 1, 0, 1, 1, 0, 1])
     \<and> vertexCount m = 7
     \<and> (\<exists>sph. boundingSphere m = Some sph
           \<and> center sph = (1 / 2, 1 / 2, 1)
           \<and> enclosesWithin (1 / 2 ^ 50) sph
               ([0, 0, 0, 1, 0, 0, 0, 1, 0] @ [0, 0, 2, 1, 0, 2, 1, 1, 2, 0, 1, 2]))"
proof -
  let ?p1 = "[0, 0, 0, 1, 0, 0, 0, 1, 0] :: real list"
  let ?p2 = "[0, 0, 2, 1, 0, 2, 1, 1, 2, 0, 1, 2] :: real list"
  let ?n1 = "[0, 0, 1, 0, 0, 1, 0, 0, 1] :: real list"
  let ?n2 = "[0, 0, - 1, 0, 0, - 1, 0, 0, - 1, 0, 0, - 1] :: real list"
  let ?u1 = "[0, 0, 1, 0, 0, 1] :: real list"
  let ?u2 = "[0, 0, 1, 0, 1, 1, 0, 1] :: real list"
  have ok: "\<forall>n. \<not> storage_fails sampleThree n" by (simp add: sampleThree_def)
  from mergeGeometries_concat [of sampleThree "[triangle, quad]"] ok
  obtain m where m: "mergeGeometries sampleThree [triangle, quad] = Inr m" by blast
  have g: "position triangle = Some ?p1 \<and> normal triangle = Some ?n1 \<and> uv triangle = Some ?u1
      \<and> position quad = Some ?p2 \<and> normal quad = Some ?n2 \<and> uv quad = Some ?u2
      \<and> length ?p1 = 9 \<and> length ?n1 = 9 \<and> length ?u1 = 6
      \<and> length ?p2 = 12 \<and> length ?n2 = 12 \<and> length ?u2 = 8"
    by (simp add: triangle_def quad_def)
  have l: "boundingSphereOf sampleThree = boundingSphere64" by (simp add: sampleThree_def)
  have c: "getCenter (vertices (?p1 @ ?p2)) = (1 / 2, 1 / 2, 1)"
    using sample_center by simp
  from mergeGeometries_concat
    [of sampleThree _ _ triangle ?p1 ?n1 ?u1 quad ?p2 ?n2 ?u2 m] g m l
  have "position m = Some (?p1 @ ?p2) \<and> uv m = Some (?u1 @ ?u2) \<and> vertexCount m = 7
     \<and> (\<exists>sph. boundingSphere m = Some sph
           \<and> center sph = getCenter (vertices (?p1 @ ?p2))
           \<and> enclosesWithin (1 / 2 ^ 50) sph (?p1 @ ?p2))"
    by blast
  then have "position m = Some (?p1 @ ?p2) \<and> uv m = Some (?u1 @ ?u2) \<and> vertexCount m = 7
     \<and> (\<exists>sph. boundingSphere m = Some sph
           \<and> center sph = (1 / 2, 1 / 2, 1)
           \<and> enclosesWithin (1 / 2 ^ 50) sph (?p1 @ ?p2))"
    unfolding c .
  with m show ?thesis by blast
qed

lemma ensureNormals_present: "normal g \<noteq> None \<Longrightarrow> ensureNormals lib g = g"
  by (auto simp: ensureNormals_def)

lemma ensureNormals_twice: "ensureNormals lib (ensureNormals lib g) = ensureNormals lib g"
  by (simp add: ensureNormals_def computeVertexNormals_def split: option.splits)

text \<open>
  C9. The ensure-normals step of a single-mesh model, applied to a geometry that
  already has a normal attribute, returns that geometry itself: its normals and every
  other attribute are unchanged. The step is idempotent, and a single-mesh model whose
  geometry has normals is delivered with exactly that geometry.
\<close>

theorem ensureNormals_idempotent:
  "(normal g \<noteq> None \<longrightarrow>
       ensureNormals lib g = g
     \<and> normal (ensureNormals lib g) = normal g
     \<and> position (ensureNormals lib g) = position g
     \<and> uv (ensureNormals lib g) = uv g
     \<and> index (ensureNormals lib g) = index g
     \<and> boundingSphere (ensureNormals lib g) = boundingSphere g)
   \<and> ensureNormals lib (ensureNormals lib g) = ensureNormals lib g
   \<and> (normal g \<noteq> None \<and> collectGeometries scene = [g] \<longrightarrow>
        onLoad lib p scene = Some \<lparr>path = p, model_geometry = g\<rparr>)"
  using ensureNormals_twice[of lib g] ensureNormals_present[of g lib]
  by (auto simp: onLoad_def clone_def)

theorem ensureNormals_idempotent_witness:
  "ensureNormals sampleThree triangle = triangle
   \<and> normal (ensureNormals sampleThree triangle) = Some [0, 0, 1, 0, 0, 1, 0, 0, 1]
   \<and> onLoad sampleThree ''models/one.glb''
        [\<lparr>isMesh = False, geometry = None\<rparr>, \<lparr>isMesh = True, geometry = Some triangle\<rparr>]
      = Some \<lparr>path = ''models/one.glb'', model_geometry = triangle\<rparr>"
proof -
  let ?scene = "[\<lparr>isMesh = False, geometry = None\<rparr>, \<lparr>isMesh = True, geometry = Some triangle\<rparr>]"
  have n: "normal triangle \<noteq> None" by (simp add: triangle_def)
  have c: "collectGeometries ?scene = [triangle]"
    by (simp add: collectGeometries_def map_filter_simps)
  note t = ensureNormals_idempotent [of triangle sampleThree ?scene "''models/one.glb''"]
  from t n have e: "ensureNormals sampleThree triangle = triangle" by blast
  from t n c have "onLoad sampleThree ''models/one.glb'' ?scene
      = Some \<lparr>path = ''models/one.glb'', model_geometry = triangle\<rparr>"
    by blast
  with e show ?thesis by (simp add: triangle_def)
qed

subsection \<open>Model acquisition\<close>

lemma onLoad_path: "onLoad lib p scene = Some m \<Longrightarrow> path m = p"
  by (auto simp: onLoad_def Let_def split: list.splits)

lemma onLoad_None: "(onLoad lib p scene = None) = (collectGeometries scene = [])"
  by (simp add: onLoad_def Let_def split: list.splits)

lemma onLoad_normals:
  assumes "onLoad lib p scene = Some m"
  shows "collectGeometries scene = [g] \<Longrightarrow> position g \<noteq> None \<or> normal g \<noteq> None \<Longrightarrow>
           normal (model_geometry m) \<noteq> None"
    and "collectGeometries scene = g # h # gs \<Longrightarrow>
         mergeGeometries lib (g # h # gs) = Inr merged \<Longrightarrow>
           model_geometry m = merged \<and> normal merged \<noteq> None"
    and "collectGeometries scene = g # h # gs \<Longrightarrow>
         mergeGeometries lib (g # h # gs) = Inl e \<Longrightarrow>
           model_geometry m = g"
proof -
  show "normal (model_geometry m) \<noteq> None"
    if "collectGeometries scene = [g]" "position g \<noteq> None \<or> normal g \<noteq> None"
    using assms that
    by (auto simp: onLoad_def clone_def ensureNormals_def computeVertexNormals_def Let_def
        split: option.splits)
  show "model_geometry m = merged \<and> normal merged \<noteq> None"
    if "collectGeometries scene = g # h # gs" "mergeGeometries lib (g # h # gs) = Inr merged"
    using assms that mergeGeometries_Inr[OF that(2)]
    by (auto simp: onLoad_def Let_def split: if_splits)
  show "model_geometry m = g"
    if "collectGeometries scene = g # h # gs" "mergeGeometries lib (g # h # gs) = Inl e"
    using assms that by (auto simp: onLoad_def Let_def)
qed

lemma map_filter_id_map: "List.map_filter (\<lambda>m. m) (map f xs) = List.map_filter f xs"
  by (induction xs) (simp_all add: map_filter_simps split: option.splits)

lemma map_filter_app: "List.map_filter f (xs @ ys) = List.map_filter f xs @ List.map_filter f ys"
  by (simp add: List.map_filter_def)

lemma Promise_all_append:
  "Promise_all (ps @ qs) =
     (case Promise_all ps of
        None \<Rightarrow> None
      | Some vs \<Rightarrow> (case Promise_all qs of None \<Rightarrow> None | Some ws \<Rightarrow> Some (vs @ ws)))"
  by (induction ps rule: Promise_all.induct) (simp_all split: option.splits)

lemma Promise_all_settled:
  "list_all (settles gltfLoader) ps \<Longrightarrow>
   Promise_all (map (loadPromise lib gltfLoader) ps) =
     Some (map (\<lambda>p. case gltfLoader p of Loaded scene \<Rightarrow> onLoad lib p scene | _ \<Rightarrow> None) ps)"
  by (induction ps) (auto simp: settles_def loadPromise_def split: load.splits)

lemma loadAllModels_eq:
  "loadAllModels lib gltfLoader ps =
     (case Promise_all (map (loadPromise lib gltfLoader) ps) of
        None \<Rightarrow> None
      | Some results \<Rightarrow> Some (List.map_filter (\<lambda>model. model) results))"
  by (auto simp: loadAllModels_def Let_def split: option.splits)

lemma loadAllModels_settled:
  "list_all (settles gltfLoader) ps \<Longrightarrow>
   loadAllModels lib gltfLoader ps =
     Some (List.map_filter
       (\<lambda>p. case gltfLoader p of Loaded scene \<Rightarrow> onLoad lib p scene | _ \<Rightarrow> None) ps)"
  by (simp add: loadAllModels_eq Promise_all_settled map_filter_id_map)

lemma loaded_paths:
  "map path (List.map_filter
       (\<lambda>p. case gltfLoader p of Loaded scene \<Rightarrow> onLoad lib p scene | _ \<Rightarrow> None) ps)
   = filter (succeeds gltfLoader) ps"
proof (induction ps)
  case Nil
  then show ?case by (simp add: map_filter_simps)
next
  case (Cons p ps)
  show ?case
  proof (cases "gltfLoader p")
    case (Loaded scene)
    show ?thesis
    proof (cases "onLoad lib p scene")
      case None
      then show ?thesis using Cons Loaded onLoad_None[of lib p scene]
        by (simp add: map_filter_simps succeeds_def)
    next
      case (Some m)
      then show ?thesis using Cons Loaded onLoad_None[of lib p scene] onLoad_path[OF Some]
        by (simp add: map_filter_simps succeeds_def)
    qed
  next
    case LoadError
    then show ?thesis using Cons by (simp add: map_filter_simps succeeds_def)
  next
    case Pending
    then show ?thesis using Cons by (simp add: map_filter_simps succeeds_def)
  qed
qed

lemma loadAllModels_drop:
  assumes "gltfLoader p = LoadError"
  shows "loadAllModels lib gltfLoader (ps @ p # qs) = loadAllModels lib gltfLoader (ps @ qs)"
proof -
  have one: "loadPromise lib gltfLoader p = Resolved None"
    using assms by (simp add: loadPromise_def)
  show ?thesis
    by (simp add: loadAllModels_eq Promise_all_append one map_filter_simps map_filter_app
        split: option.splits)
qed

text \<open>
  C8. For every list of model paths whose loads all settle, acquisition returns, in
  order, exactly the entries (path, geometry) of the successful loads: each entry
  depends on its own path alone, and the paths returned are the successful ones. A
  path whose load fails contributes nothing and changes nothing else: acquisition
  returns the same with and without it. When no load succeeds, acquisition returns the
  empty list and initializeScene returns without building anything; otherwise the
  scene is populated from the loaded entries.
\<close>

theorem loadAllModels_partial:
  "(list_all (settles gltfLoader) modelPaths \<longrightarrow>
      (\<exists>loaded. loadAllModels lib gltfLoader modelPaths = Some loaded
         \<and> loaded = List.map_filter
             (\<lambda>p. case gltfLoader p of Loaded scene \<Rightarrow> onLoad lib p scene | _ \<Rightarrow> None) modelPaths
         \<and> map path loaded = filter (succeeds gltfLoader) modelPaths
         \<and> initializeScene cfg lib gltfLoader random modelPaths =
             (if filter (succeeds gltfLoader) modelPaths = [] then Some None
              else Some (Some (populate cfg lib random loaded)))))
   \<and> (gltfLoader p = LoadError \<longrightarrow>
        loadAllModels lib gltfLoader (ps @ p # qs) = loadAllModels lib gltfLoader (ps @ qs))
   \<and> (list_all (settles gltfLoader) modelPaths \<and> \<not> list_ex (succeeds gltfLoader) modelPaths \<longrightarrow>
        loadAllModels lib gltfLoader modelPaths = Some []
      \<and> initializeScene cfg lib gltfLoader random modelPaths = Some None)"
proof -
  let ?entry = "\<lambda>p. case gltfLoader p of Loaded scene \<Rightarrow> onLoad lib p scene | _ \<Rightarrow> None"
  let ?loaded = "List.map_filter ?entry modelPaths"
  have paths: "map path ?loaded = filter (succeeds gltfLoader) modelPaths"
    by (rule loaded_paths)
  have empty: "(?loaded = []) = (filter (succeeds gltfLoader) modelPaths = [])"
  proof -
    have "(map path ?loaded = []) = (?loaded = [])" by (rule map_is_Nil_conv)
    then show ?thesis unfolding paths by (rule sym)
  qed
  have a: "loadAllModels lib gltfLoader modelPaths = Some ?loaded
         \<and> map path ?loaded = filter (succeeds gltfLoader) modelPaths
         \<and> initializeScene cfg lib gltfLoader random modelPaths =
             (if filter (succeeds gltfLoader) modelPaths = [] then Some None
              else Some (Some (populate cfg lib random ?loaded)))"
    if "list_all (settles gltfLoader) modelPaths"
  proof -
    have l: "loadAllModels lib gltfLoader modelPaths = Some ?loaded"
      by (rule loadAllModels_settled[OF that])
    have "initializeScene cfg lib gltfLoader random modelPaths =
             (if ?loaded = [] then Some None
              else Some (Some (populate cfg lib random ?loaded)))"
      unfolding initializeScene_def l by simp
    then have "initializeScene cfg lib gltfLoader random modelPaths =
             (if filter (succeeds gltfLoader) modelPaths = [] then Some None
              else Some (Some (populate cfg lib random ?loaded)))"
      unfolding empty .
    with l paths show ?thesis by (intro conjI)
  qed
  have none: "filter (succeeds gltfLoader) modelPaths = []"
    if "\<not> list_ex (succeeds gltfLoader) modelPaths"
    using that by (simp add: list_ex_iff filter_empty_conv)
  have b: "gltfLoader p = LoadError \<longrightarrow>
        loadAllModels lib gltfLoader (ps @ p # qs) = loadAllModels lib gltfLoader (ps @ qs)"
    using loadAllModels_drop[of gltfLoader p lib ps qs] by blast
  have c: "loadAllModels lib gltfLoader modelPaths = Some []
      \<and> initializeScene cfg lib gltfLoader random modelPaths = Some None"
    if "list_all (settles gltfLoader) modelPaths" "\<not> list_ex (succeeds gltfLoader) modelPaths"
  proof -
    have f: "filter (succeeds gltfLoader) modelPaths = []" by (rule none[OF that(2)])
    then have "?loaded = []" unfolding empty .
    with a[OF that(1)] f show ?thesis by (simp only: if_True simp_thms)
  qed
  from a have a': "list_all (settles gltfLoader) modelPaths \<longrightarrow>
      (\<exists>loaded. loadAllModels lib gltfLoader modelPaths = Some loaded
         \<and> loaded = ?loaded
         \<and> map path loaded = filter (succeeds gltfLoader) modelPaths
         \<and> initializeScene cfg lib gltfLoader random modelPaths =
             (if filter (succeeds gltfLoader) modelPaths = [] then Some None
              else Some (Some (populate cfg lib random loaded))))"
    by blast
  from c have c': "list_all (settles gltfLoader) modelPaths
      \<and> \<not> list_ex (succeeds gltfLoader) modelPaths \<longrightarrow>
        loadAllModels lib gltfLoader modelPaths = Some []
      \<and> initializeScene cfg lib gltfLoader random modelPaths = Some None"
    by blast
  from a' b c' show ?thesis by (intro conjI)
qed


theorem loadAllModels_partial_witness:
  "(\<exists>loaded. loadAllModels sampleThree sampleLoader
        [''models/one.glb'', ''models/missing.glb'', ''models/two.glb'', ''models/empty.glb'']
          = Some loaded
      \<and> map path loaded = [''models/one.glb'', ''models/two.glb''])
   \<and> loadAllModels sampleThree sampleLoader
        [''models/one.glb'', ''models/missing.glb'', ''models/two.glb'', ''models/empty.glb'']
     = loadAllModels sampleThree sampleLoader
        [''models/one.glb'', ''models/two.glb'', ''models/empty.glb'']
   \<and> loadAllModels sampleThree sampleLoader [''models/missing.glb'', ''models/empty.glb''] = Some []
   \<and> initializeScene CONFIG sampleThree sampleLoader (\<lambda>n. 1 / 4)
        [''models/missing.glb'', ''models/empty.glb''] = Some None"
proof -
  let ?all = "[''models/one.glb'', ''models/missing.glb'', ''models/two.glb'', ''models/empty.glb'']"
  let ?bad = "[''models/missing.glb'', ''models/empty.glb'']"
  have s: "list_all (settles sampleLoader) ?all" "list_all (settles sampleLoader) ?bad"
    by (simp_all add: settles_def sampleLoader_def)
  have f: "filter (succeeds sampleLoader) ?all = [''models/one.glb'', ''models/two.glb'']"
    by (simp add: succeeds_def sampleLoader_def collectGeometries_def map_filter_simps)
  have n: "\<not> list_ex (succeeds sampleLoader) ?bad"
    by (simp add: succeeds_def sampleLoader_def collectGeometries_def map_filter_simps)
  have e: "sampleLoader ''models/missing.glb'' = LoadError"
    by (simp add: sampleLoader_def)
  from loadAllModels_partial [of sampleLoader ?all sampleThree] s(1)
  obtain loaded where "loadAllModels sampleThree sampleLoader ?all = Some loaded"
    "map path loaded = filter (succeeds sampleLoader) ?all"
    by blast
  then have one: "\<exists>loaded. loadAllModels sampleThree sampleLoader ?all = Some loaded
      \<and> map path loaded = [''models/one.glb'', ''models/two.glb'']"
    using f by simp
  from loadAllModels_partial [of sampleLoader _ sampleThree _ _ "''models/missing.glb''"
      "[''models/one.glb'']" "[''models/two.glb'', ''models/empty.glb'']"] e
  have "loadAllModels sampleThree sampleLoader
          ([''models/one.glb''] @ ''models/missing.glb'' # [''models/two.glb'', ''models/empty.glb''])
      = loadAllModels sampleThree sampleLoader
          ([''models/one.glb''] @ [''models/two.glb'', ''models/empty.glb''])"
    by blast
  then have two: "loadAllModels sampleThree sampleLoader ?all
      = loadAllModels sampleThree sampleLoader
          [''models/one.glb'', ''models/two.glb'', ''models/empty.glb'']"
    by simp
  from loadAllModels_partial [of sampleLoader ?bad sampleThree CONFIG "\<lambda>n. 1 / 4"] s(2) n
  have "loadAllModels sampleThree sampleLoader ?bad = Some []
      \<and> initializeScene CONFIG sampleThree sampleLoader (\<lambda>n. 1 / 4) ?bad = Some None"
    by blast
  with one two show ?thesis by blast
qed


text \<open>
  C5, on the code. Merging a triangle that has normals with a quadrilateral that has
  none returns a geometry of 7 vertices whose normal attribute is the triangle's 9
  numbers: the accumulated normals are kept, not discarded and recomputed.
\<close>

theorem mergeGeometries_partial_normals:
  "\<exists>m. mergeGeometries sampleThree [triangle, quad\<lparr>normal := None\<rparr>] = Inr m
     \<and> vertexCount m = 7
     \<and> position m = Some [0, 0, 0, 1, 0, 0, 0, 1, 0, 0, 0, 2, 1, 0, 2, 1, 1, 2, 0, 1, 2]
     \<and> normal m = Some [0, 0, 1, 0, 0, 1, 0, 0, 1]"
  by (simp add: mergeGeometries_def pushAll_def Let_def triangle_def quad_def sampleThree_def
      computeBoundingSphere_def vertexCount_def BufferGeometry_def)



text \<open>
  C6, on the code. With an engine that cannot provide an array of more than 16
  numbers, the merge of a model made of a triangle without normals and a quadrilateral
  raises, and the model is delivered with the triangle as it is: a geometry with no
  normal attribute.
\<close>

theorem onLoad_fallback_without_normals:
  "onLoad (sampleThree\<lparr>storage_fails := \<lambda>n. 16 < n\<rparr>) ''models/two.glb''
       [\<lparr>isMesh = True, geometry = Some (triangle\<lparr>normal := None\<rparr>)\<rparr>,
        \<lparr>isMesh = True, geometry = Some quad\<rparr>]
     = Some \<lparr>path = ''models/two.glb'', model_geometry = triangle\<lparr>normal := None\<rparr>\<rparr>
   \<and> loadAllModels (sampleThree\<lparr>storage_fails := \<lambda>n. 16 < n\<rparr>) sampleLoader [''models/two.glb'']
     = Some [\<lparr>path = ''models/two.glb'', model_geometry = triangle\<lparr>normal := None\<rparr>\<rparr>]
   \<and> normal (triangle\<lparr>normal := None\<rparr>) = None"
proof -
  let ?lib = "sampleThree\<lparr>storage_fails := \<lambda>n. 16 < n\<rparr>"
  let ?bare = "triangle\<lparr>normal := None\<rparr>"
  let ?scene = "[\<lparr>isMesh = True, geometry = Some ?bare\<rparr>, \<lparr>isMesh = True, geometry = Some quad\<rparr>]"
  have c: "collectGeometries ?scene = [?bare, quad]"
    by (simp add: collectGeometries_def map_filter_simps)
  have m: "mergeGeometries ?lib [?bare, quad] = Inl RangeError"
    by (simp add: mergeGeometries_def pushAll_def Let_def triangle_def quad_def)
  have o: "onLoad ?lib ''models/two.glb'' ?scene
      = Some \<lparr>path = ''models/two.glb'', model_geometry = ?bare\<rparr>"
    unfolding onLoad_def c m by simp
  have l: "sampleLoader ''models/two.glb'' = Loaded ?scene"
    by (simp add: sampleLoader_def)
  have "loadAllModels ?lib sampleLoader [''models/two.glb'']
      = Some [\<lparr>path = ''models/two.glb'', model_geometry = ?bare\<rparr>]"
    unfolding loadAllModels_eq by (simp add: loadPromise_def l o map_filter_simps)
  with o show ?thesis by simp
qed

end
